theory Spec2Isabelle
  imports Complex_Main "HOL-Library.Multiset"
begin

section \<open>Python values\<close>

text \<open>
  A Python \<open>str\<close> is a sequence of Unicode code points; \<open>len\<close>, indexing and \<open>==\<close> work on
  that sequence. It is modelled as a list of code points, each a natural number. A literal
  of the source is written \<open>py ''...''\<close>.
\<close>

type_synonym pystr = "nat list"

definition py :: "string \<Rightarrow> pystr" where
  "py s = map of_char s"

text \<open>
  The exceptions that occur. \<open>KeyboardInterrupt\<close> and \<open>SystemExit\<close> derive from
  \<open>BaseException\<close> only, so \<open>except Exception\<close> does not catch them.
\<close>

datatype py_exception =
  IndexError | ValueError | TypeError
  | Timeout | ConnectionError | JSONDecodeError
  | KeyboardInterrupt | SystemExit

fun is_Exception :: "py_exception \<Rightarrow> bool" where
  "is_Exception KeyboardInterrupt = False"
| "is_Exception SystemExit = False"
| "is_Exception _ = True"

text \<open>\<open>xs[i]\<close>: an index below zero is taken from the end of the list; \<open>IndexError\<close> otherwise.\<close>

definition py_index :: "'a list \<Rightarrow> int \<Rightarrow> py_exception + 'a" where
  "py_index xs i =
     (if 0 \<le> i \<and> i < int (length xs) then Inr (xs ! nat i)
      else if i < 0 \<and> - int (length xs) \<le> i then Inr (xs ! nat (int (length xs) + i))
      else Inl IndexError)"

text \<open>Sequencing: the first exception raised ends the computation.\<close>

definition and_then :: "py_exception + 'a \<Rightarrow> ('a \<Rightarrow> py_exception + 'b) \<Rightarrow> py_exception + 'b" where
  "and_then r f = (case r of Inl e \<Rightarrow> Inl e | Inr x \<Rightarrow> f x)"

text \<open>\<open>int(x)\<close> of a float truncates towards zero.\<close>

definition py_int :: "real \<Rightarrow> int" where
  "py_int x = (if 0 \<le> x then \<lfloor>x\<rfloor> else \<lceil>x\<rceil>)"

text \<open>
  A Python float is an IEEE-754 double; it is represented by the real number it denotes.
  Every float operation returns the double nearest to the exact result, a tie going to the
  even significand: for \<open>2^e \<le> |x| < 2^(e+1)\<close> the doubles around \<open>x\<close> are the multiples of
  \<open>2^(e-52)\<close>, and below \<open>2^(-1022)\<close> (subnormal numbers) the multiples of \<open>2^(-1074)\<close>.
  Infinities and NaN denote no real number; an overflow is not modelled.
\<close>

definition pow2 :: "int \<Rightarrow> real" where
  "pow2 e = (if 0 \<le> e then 2 ^ nat e else 1 / 2 ^ nat (- e))"

definition round_half_even :: "real \<Rightarrow> int" where
  "round_half_even y =
     (if y - of_int \<lfloor>y\<rfloor> < 1 / 2 then \<lfloor>y\<rfloor>
      else if 1 / 2 < y - of_int \<lfloor>y\<rfloor> then \<lfloor>y\<rfloor> + 1
      else if even \<lfloor>y\<rfloor> then \<lfloor>y\<rfloor> else \<lfloor>y\<rfloor> + 1)"

definition round_double :: "real \<Rightarrow> real" where
  "round_double x =
     (if x = 0 then 0
      else let e = max \<lfloor>log 2 \<bar>x\<bar>\<rfloor> (- 1022); ulp = pow2 (e - 52)
           in of_int (round_half_even (x / ulp)) * ulp)"

text \<open>\<open>str(n)\<close> of an integer: the decimal digits, after a minus sign when negative.\<close>

fun digits :: "nat \<Rightarrow> pystr" where
  "digits n = (if n < 10 then [48 + n] else digits (n div 10) @ [48 + n mod 10])"

declare digits.simps [simp del]

definition py_str :: "int \<Rightarrow> pystr" where
  "py_str i = (if i < 0 then 45 # digits (nat (- i)) else digits (nat i))"

text \<open>
  \<open>int(s)\<close> of a string. Accepted here: an optional sign followed by ASCII digits, which is
  what \<open>py_str\<close> writes. Python also accepts surrounding whitespace, underscores between
  digits and other Unicode digits; the model reports such fields as \<open>ValueError\<close>.
\<close>

definition is_digit :: "nat \<Rightarrow> bool" where
  "is_digit c = (48 \<le> c \<and> c \<le> 57)"

definition digits_value :: "pystr \<Rightarrow> nat" where
  "digits_value ds = foldl (\<lambda>acc c. 10 * acc + (c - 48)) 0 ds"

definition parse_digits :: "pystr \<Rightarrow> py_exception + nat" where
  "parse_digits ds =
     (if ds \<noteq> [] \<and> list_all is_digit ds then Inr (digits_value ds) else Inl ValueError)"

definition py_int_of_str :: "pystr \<Rightarrow> py_exception + int" where
  "py_int_of_str s =
     (case s of
        [] \<Rightarrow> Inl ValueError
      | c # rest \<Rightarrow>
          if c = 45 then and_then (parse_digits rest) (\<lambda>n. Inr (- int n))
          else if c = 43 then and_then (parse_digits rest) (\<lambda>n. Inr (int n))
          else and_then (parse_digits s) (\<lambda>n. Inr (int n)))"



section \<open>words\_random.py\<close>

text \<open>
  What \<open>requests.get(url, timeout = 5).json()\<close> does is outside the program: it either
  returns the parsed response or raises. Its behaviour is a parameter of the model, a
  function from the URL requested. An exception comes with the text of \<open>str(e)\<close>.
\<close>

datatype fetch_outcome = Returns "pystr list" | Raises py_exception pystr

record wordslist =
  words_list :: "pystr list option"
  idiom :: "pystr option"

definition fallback_words :: "pystr list" where
  "fallback_words = map py [''default'', ''word'', ''list'', ''in'', ''case'', ''of'', ''error'']"

definition request_url :: "pystr option \<Rightarrow> pystr" where
  "request_url lang_code =
     (case lang_code of
        None \<Rightarrow> py ''https://random-word-api.herokuapp.com/all''
      | Some l \<Rightarrow> py ''https://random-word-api.herokuapp.com/all?lang='' @ l)"

text \<open>
  \<open>get_words\<close> returns the object and the lines printed; \<open>Inl e\<close> is an exception that
  leaves the method.
\<close>

definition get_words ::
  "(pystr \<Rightarrow> fetch_outcome) \<Rightarrow> wordslist \<Rightarrow> pystr option \<Rightarrow> py_exception + (wordslist \<times> pystr list)" where
  "get_words http_get self lang_code =
     (case http_get (request_url lang_code) of
        Returns ws \<Rightarrow> Inr (self\<lparr>wordslist.words_list := Some ws\<rparr>, [])
      | Raises e msg \<Rightarrow>
          if is_Exception e
          then Inr (self\<lparr>wordslist.words_list := Some fallback_words\<rparr>,
                    [py ''Unable to load words: '' @ msg])
          else Inl e)"

definition WordsList ::
  "(pystr \<Rightarrow> fetch_outcome) \<Rightarrow> pystr option \<Rightarrow> py_exception + (wordslist \<times> pystr list)" where
  "WordsList http_get lang_code =
     get_words http_get \<lparr>wordslist.words_list = None, wordslist.idiom = lang_code\<rparr> lang_code"

text \<open>
  \<open>random.sample(population, k)\<close> is library code. It raises \<open>ValueError\<close> when \<open>k\<close> exceeds
  the population, and otherwise selects \<open>k\<close> positions one after the other: the \<open>i\<close>-th
  selection takes a random position \<open>j\<close> below the number of items still in the pool,
  returns the item there and moves the last item of the pool into the vacancy. The random
  source is the parameter \<open>randbits\<close>: its \<open>i\<close>-th value, reduced modulo the size of the pool,
  is the position taken.
\<close>

fun sample_loop :: "(nat \<Rightarrow> nat) \<Rightarrow> nat \<Rightarrow> 'a list \<Rightarrow> nat \<Rightarrow> 'a list" where
  "sample_loop randbits i pool 0 = []"
| "sample_loop randbits i pool (Suc k) =
     (let j = randbits i mod length pool
      in pool ! j # sample_loop randbits (Suc i) (butlast (pool[j := last pool])) k)"

definition sample :: "(nat \<Rightarrow> nat) \<Rightarrow> 'a list \<Rightarrow> nat \<Rightarrow> py_exception + 'a list" where
  "sample randbits population k =
     (if k \<le> length population then Inr (sample_loop randbits 0 population k)
      else Inl ValueError)"

definition get_list :: "(nat \<Rightarrow> nat) \<Rightarrow> wordslist \<Rightarrow> py_exception + pystr list" where
  "get_list randbits self =
     (case wordslist.words_list self of
        None \<Rightarrow> Inl TypeError
      | Some ws \<Rightarrow>
          (let filtered_words = filter (\<lambda>word. length word \<le> 8) ws
           in sample randbits filtered_words (min 200 (length filtered_words))))"

text \<open>
  The specification's data model calls the words of a pool lowercase. No function of the
  source tests or changes the case of a character, so the property is stated here, in its
  weakest reading: none of the characters is one of the capital letters \<open>A\<close> to \<open>Z\<close>.
\<close>

definition spec_lowercase :: "pystr \<Rightarrow> bool" where
  "spec_lowercase word = list_all (\<lambda>c. \<not> (65 \<le> c \<and> c \<le> 90)) word"

section \<open>window.py: TypingSession\<close>

text \<open>
  The fields of a \<open>TypingSession\<close>. The clock reading \<open>start_time\<close> and the two metrics are
  Python floats (the metrics start as the integer 0).
\<close>

record session =
  words :: "pystr list"
  start_time :: real
  time_left :: int
  correct_words :: int
  correct_chars :: int
  current_word_index :: int
  cpm_corrected :: real
  wpm :: real
  timer_started :: bool

text \<open>\<open>start\<close> resets the counters; \<open>now\<close> is the reading of \<open>time.time()\<close>.\<close>

definition start :: "real \<Rightarrow> session \<Rightarrow> session" where
  "start now self =
     self\<lparr>start_time := now, time_left := 60, correct_words := 0, correct_chars := 0,
          current_word_index := 0, cpm_corrected := 0, session.wpm := 0\<rparr>"

text \<open>\<open>__init__\<close>: the fields are created, \<open>start\<close> runs, then the timer flag is cleared.\<close>

definition TypingSession :: "real \<Rightarrow> pystr list \<Rightarrow> session" where
  "TypingSession now ws =
     (start now \<lparr>words = ws, start_time = 0, time_left = 0, correct_words = 0, correct_chars = 0,
                 current_word_index = 0, cpm_corrected = 0, session.wpm = 0,
                 session.timer_started = False\<rparr>)
       \<lparr>session.timer_started := False\<rparr>"


text \<open>
  The generator expression of \<open>check_word\<close>:
  \<open>sum(1 for i in range(min(len(typed), len(actual))) if typed[i] == actual[i])\<close>.
\<close>

definition matching_chars :: "pystr \<Rightarrow> pystr \<Rightarrow> int" where
  "matching_chars typed actual =
     int (length (filter (\<lambda>i. typed ! i = actual ! i) [0 ..< min (length typed) (length actual)]))"

text \<open>\<open>check_word\<close> raises before it changes anything, when the index is out of range.\<close>

definition check_word :: "session \<Rightarrow> pystr \<Rightarrow> py_exception + (bool \<times> session)" where
  "check_word self typed =
     (case py_index (words self) (current_word_index self) of
        Inl e \<Rightarrow> Inl e
      | Inr actual \<Rightarrow>
          (let s1 = self\<lparr>correct_chars := correct_chars self + matching_chars typed actual\<rparr>
           in if typed = actual then Inr (True, s1\<lparr>correct_words := correct_words s1 + 1\<rparr>)
              else Inr (False, s1)))"

text \<open>
  \<open>update_metrics\<close>. Its float operations, each rounded: the subtraction of the two clock
  readings, the division by 60, the quotient \<open>1 / 60\<close>, the conversion of the integer
  \<open>correct_chars\<close>, its division by the elapsed time, and the division by 5.
\<close>

definition update_metrics :: "real \<Rightarrow> session \<Rightarrow> session" where
  "update_metrics now self =
     (if start_time self = 0 then self
      else let elapsed_time = max (round_double (round_double (now - start_time self) / 60))
                                  (round_double (1 / 60));
               cpm = round_double (round_double (real_of_int (correct_chars self)) / elapsed_time)
           in self\<lparr>cpm_corrected := cpm, session.wpm := round_double (cpm / 5)\<rparr>)"

section \<open>window.py: the score file\<close>

text \<open>
  The file \<open>score/score.csv\<close> is \<open>None\<close> when it does not exist, and otherwise the rows that
  \<open>csv.reader\<close> reads from it, each a list of text fields. \<open>csv.writer.writerow\<close> appends one
  row, writing an integer as \<open>str\<close> does; the encoding of a field in the file's text is
  the \<open>csv\<close> module's and is not modelled. Failures of the file system are not modelled.
\<close>

type_synonym csv_file = "pystr list list option"

record last_score =
  date :: pystr
  lang :: pystr
  cpm :: int
  wpm :: int

definition header_row :: "pystr list" where
  "header_row = map py [''Date'', ''Lang'', ''CPM'', ''WPM'']"

text \<open>
  The row that \<open>save_score_to_csv\<close> writes: \<open>date_now\<close> is
  \<open>datetime.now().strftime("%Y-%m-%d %H:%M:%S")\<close>; an idiom that is \<open>None\<close> or empty is
  written as \<open>en\<close>.
\<close>

definition score_row :: "pystr \<Rightarrow> pystr option \<Rightarrow> session \<Rightarrow> pystr list" where
  "score_row date_now lang_code s =
     [date_now,
      (case lang_code of None \<Rightarrow> py ''en'' | Some l \<Rightarrow> if l = [] then py ''en'' else l),
      py_str (py_int (cpm_corrected s)),
      py_str (py_int (session.wpm s))]"

definition write_score :: "pystr list \<Rightarrow> csv_file \<Rightarrow> csv_file" where
  "write_score row file =
     (case file of
        None \<Rightarrow> Some [header_row, row]
      | Some rows \<Rightarrow> Some (rows @ [row]))"

definition read_last_score :: "csv_file \<Rightarrow> py_exception + last_score option" where
  "read_last_score file =
     (case file of
        None \<Rightarrow> Inr None
      | Some reader \<Rightarrow>
          if length reader \<le> 1 then Inr None
          else
            and_then (py_index reader (- 1)) (\<lambda>last_row.
            and_then (py_index last_row 0) (\<lambda>f0.
            and_then (py_index last_row 1) (\<lambda>f1.
            and_then (py_index last_row 2) (\<lambda>f2.
            and_then (py_int_of_str f2) (\<lambda>c.
            and_then (py_index last_row 3) (\<lambda>f3.
            and_then (py_int_of_str f3) (\<lambda>w.
              Inr (Some \<lparr>date = f0, lang = f1, cpm = c, last_score.wpm = w\<rparr>)))))))))"

section \<open>window.py: Window\<close>

text \<open>
  The record holds the fields of a \<open>Window\<close> that the handlers read or branch on, as they
  are once \<open>__init__\<close> has returned (\<open>session\<close> and \<open>words_list\<close> are assigned by then, so the
  guards \<open>if not self.session\<close> are never taken). A Tk entry is its text, and for the typing
  entry also its state; \<open>after_id\<close> records whether the field holds an identifier. Three
  components are the environment's: \<open>timer_pending\<close> tells whether Tk holds a callback
  registered by \<open>window.after\<close>, \<open>score_csv\<close> is the score file, and \<open>messagebox_shown\<close>
  counts the dialogs of \<open>end_test\<close>. Text tags and colours are not modelled.
\<close>

datatype widget_state = NORMAL | DISABLED

record window =
  idiom :: "pystr option"
  words_list :: "pystr list"
  after_id :: bool
  words_indexes :: "(nat \<times> nat) list"
  session :: session
  timer_started :: bool
  typed_text_entry :: pystr
  typed_text_entry_state :: widget_state
  recent_score_entry :: pystr
  corrected_cpm_entry :: pystr
  wpm_entry :: pystr
  time_entry :: pystr
  timer_pending :: bool
  score_csv :: csv_file
  messagebox_shown :: nat

text \<open>
  What a handler reads from outside the program when it runs: the network, the random
  source, \<open>time.time()\<close> and the formatted \<open>datetime.now()\<close>.
\<close>

record env =
  http_get :: "pystr \<Rightarrow> fetch_outcome"
  randbits :: "nat \<Rightarrow> nat"
  time_time :: real
  date_now :: pystr

text \<open>
  The loop of \<open>reset_interface\<close>: each word is inserted with a space after it; the positions
  kept are the character offsets of its first character and of the space.
\<close>

fun word_positions :: "nat \<Rightarrow> pystr list \<Rightarrow> (nat \<times> nat) list" where
  "word_positions index [] = []"
| "word_positions index (word # rest) =
     (index, index + length word) # word_positions (index + length word + 1) rest"

definition reset_interface :: "window \<Rightarrow> window" where
  "reset_interface self =
     self\<lparr>words_indexes := word_positions 0 (window.words_list self),
          typed_text_entry_state := NORMAL, typed_text_entry := [],
          corrected_cpm_entry := [], wpm_entry := [], time_entry := py ''60''\<rparr>"



definition save_score_to_csv :: "pystr \<Rightarrow> window \<Rightarrow> window" where
  "save_score_to_csv now_text self =
     self\<lparr>score_csv :=
            write_score (score_row now_text (window.idiom self) (session self)) (score_csv self)\<rparr>"

definition get_last_score :: "window \<Rightarrow> py_exception + last_score option" where
  "get_last_score self = read_last_score (score_csv self)"

definition end_test :: "pystr \<Rightarrow> window \<Rightarrow> window" where
  "end_test now_text self =
     (let s = session self;
          c = (if cpm_corrected s \<noteq> 0 then py_int (cpm_corrected s) else 0);
          v = (if session.wpm s \<noteq> 0 then py_int (session.wpm s) else 0);
          w1 = self\<lparr>typed_text_entry_state := DISABLED,
                    recent_score_entry := py_str c @ py '' CPM ('' @ py_str v @ py '' WPM)''\<rparr>;
          w2 = save_score_to_csv now_text w1
      in w2\<lparr>messagebox_shown := messagebox_shown w2 + 1\<rparr>)"

text \<open>
  \<open>update_timer\<close> shows the time left, then either counts down and registers itself with
  \<open>window.after\<close>, or ends the test.
\<close>

definition update_timer :: "env \<Rightarrow> window \<Rightarrow> window" where
  "update_timer e self =
     (let w1 = self\<lparr>time_entry := py_str (time_left (session self))\<rparr>
      in if time_left (session w1) > 0
         then w1\<lparr>session := (session w1)\<lparr>time_left := time_left (session w1) - 1\<rparr>,
                 after_id := True, timer_pending := True\<rparr>
         else end_test (date_now e) w1)"


text \<open>
  A handler returns the exception that left it, if any, together with the window as the
  handler left it: Tk reports an exception of a callback and goes on.

  \<open>new_session\<close>: the lines that \<open>get_words\<close> prints are not kept.
\<close>

definition new_session :: "env \<Rightarrow> window \<Rightarrow> py_exception option \<times> window" where
  "new_session e self =
     (case and_then (WordsList (http_get e) (window.idiom self))
                    (\<lambda>(wl, printed). get_list (randbits e) wl) of
        Inl ex \<Rightarrow> (Some ex, self)
      | Inr ws \<Rightarrow>
          (let w1 = self\<lparr>window.words_list := ws\<rparr>;
               w2 = w1\<lparr>session := TypingSession (time_time e) (window.words_list w1)\<rparr>;
               w3 = reset_interface w2
           in case get_last_score w3 of
                Inl ex \<Rightarrow> (Some ex, w3)
              | Inr None \<Rightarrow> (None, w3)
              | Inr (Some sc) \<Rightarrow>
                  (None, w3\<lparr>recent_score_entry :=
                              py ''Lang: '' @ lang sc @ py '' '' @ py_str (cpm sc)
                              @ py '' CPM ('' @ py_str (last_score.wpm sc) @ py '' WPM)''\<rparr>)))"





text \<open>
  \<open>Window()\<close>: the widgets are made, then \<open>new_session\<close> runs; an exception there ends the
  program. The score file is as earlier runs left it. The session field is unassigned
  until \<open>new_session\<close> assigns it; the record has an empty session in its place.
\<close>

definition Window :: "env \<Rightarrow> csv_file \<Rightarrow> py_exception + window" where
  "Window e file =
     (case new_session e
             \<lparr>window.idiom = None, window.words_list = [], after_id = False, words_indexes = [],
              session = TypingSession 0 [], window.timer_started = False,
              typed_text_entry = [], typed_text_entry_state = NORMAL, recent_score_entry = [],
              corrected_cpm_entry = [], wpm_entry = [], time_entry = [],
              timer_pending = False, score_csv = file, messagebox_shown = 0\<rparr> of
        (None, w) \<Rightarrow> Inr w
      | (Some ex, w) \<Rightarrow> Inl ex)"


text \<open>Runs: successive calls of \<open>update_timer\<close>, and successive words typed and submitted.\<close>

fun ticks :: "env list \<Rightarrow> window \<Rightarrow> window" where
  "ticks [] w = w"
| "ticks (e # es) w = ticks es (update_timer e w)"


text \<open>
  The life of the score file: one \<open>save_score_to_csv\<close> after the other, each with the date,
  the idiom and the session of its moment.
\<close>

fun saved_scores :: "(pystr \<times> pystr option \<times> session) list \<Rightarrow> window \<Rightarrow> window" where
  "saved_scores [] w = w"
| "saved_scores ((d, l, s) # rest) w =
     saved_scores rest (save_score_to_csv d (w\<lparr>window.idiom := l, session := s\<rparr>))"

text \<open>
  What \<open>new_session\<close> establishes and every handler keeps: the session types the window's
  word list, each word has its position, and the index is within the list or just past
  its end.
\<close>

definition window_inv :: "window \<Rightarrow> bool" where
  "window_inv w =
     (words (session w) = window.words_list w \<and>
      length (words_indexes w) = length (window.words_list w) \<and>
      0 \<le> current_word_index (session w) \<and>
      current_word_index (session w) \<le> int (length (window.words_list w)))"


section \<open>Character credit and exact match of \<open>check_word\<close>\<close>

lemma matching_chars_card:
  "matching_chars t w = int (card {i. i < min (length t) (length w) \<and> t ! i = w ! i})"
proof -
  have "{i. i < min (length t) (length w) \<and> t ! i = w ! i}
          = set (filter (\<lambda>i. t ! i = w ! i) [0 ..< min (length t) (length w)])"
    by auto
  moreover have "distinct (filter (\<lambda>i. t ! i = w ! i) [0 ..< min (length t) (length w)])"
    by simp
  ultimately show ?thesis
    unfolding matching_chars_def by (simp only: distinct_card)
qed

lemma matching_chars_le: "matching_chars t w \<le> int (min (length t) (length w))"
proof -
  have "length (filter (\<lambda>i. t ! i = w ! i) [0 ..< min (length t) (length w)])
          \<le> length [0 ..< min (length t) (length w)]"
    by (rule length_filter_le)
  then show ?thesis
    unfolding matching_chars_def by simp
qed

lemma matching_chars_extra:
  assumes "length w \<le> length t"
  shows "matching_chars (t @ extra) w = matching_chars t w"
proof -
  have "filter (\<lambda>i. (t @ extra) ! i = w ! i) [0 ..< length w]
          = filter (\<lambda>i. t ! i = w ! i) [0 ..< length w]"
    using assms by (intro filter_cong) (auto simp: nth_append)
  with assms show ?thesis
    unfolding matching_chars_def by (simp add: min_def)
qed

lemma matching_chars_none:
  assumes "\<forall>i < min (length t) (length w). t ! i \<noteq> w ! i"
  shows "matching_chars t w = 0"
  using assms unfolding matching_chars_def by (simp add: filter_empty_conv)

lemma matching_chars_all:
  assumes "\<forall>i < min (length t) (length w). t ! i = w ! i"
  shows "matching_chars t w = int (min (length t) (length w))"
proof -
  have "filter (\<lambda>i. t ! i = w ! i) [0 ..< min (length t) (length w)]
          = [0 ..< min (length t) (length w)]"
    using assms by (simp add: filter_id_conv)
  then show ?thesis
    unfolding matching_chars_def by simp
qed

lemma check_word_result:
  assumes "py_index (words s) (current_word_index s) = Inr w"
  shows "check_word s t =
           Inr (t = w,
                if t = w
                then s\<lparr>correct_chars := correct_chars s + matching_chars t w,
                       correct_words := correct_words s + 1\<rparr>
                else s\<lparr>correct_chars := correct_chars s + matching_chars t w\<rparr>)"
  using assms by (simp add: check_word_def Let_def)

text \<open>
  Claim C1. When the current word \<open>w = words[cursor]\<close> exists, \<open>check_word(t)\<close> returns and
  adds to \<open>correct_chars\<close> exactly the number of positions below \<open>min(len(t), len(w))\<close> at
  which \<open>t\<close> and \<open>w\<close> agree. The credit is at most \<open>min(len(t), len(w))\<close>; characters typed
  beyond the length of \<open>w\<close> change nothing; and when no position agrees the credit is zero,
  whatever characters the two strings share elsewhere.
\<close>

theorem check_word_character_credit:
  assumes "py_index (words s) (current_word_index s) = Inr w"
  shows "\<exists>ok s'. check_word s t = Inr (ok, s') \<and>
           correct_chars s' =
             correct_chars s + int (card {i. i < min (length t) (length w) \<and> t ! i = w ! i}) \<and>
           correct_chars s' - correct_chars s \<le> int (min (length t) (length w)) \<and>
           (length w \<le> length t \<longrightarrow>
              (\<forall>extra. \<exists>ok2 s2. check_word s (t @ extra) = Inr (ok2, s2) \<and>
                                  correct_chars s2 = correct_chars s')) \<and>
           ((\<forall>i < min (length t) (length w). t ! i \<noteq> w ! i) \<longrightarrow>
              correct_chars s' = correct_chars s)"
proof -
  let ?s' = "if t = w
             then s\<lparr>correct_chars := correct_chars s + matching_chars t w,
                    correct_words := correct_words s + 1\<rparr>
             else s\<lparr>correct_chars := correct_chars s + matching_chars t w\<rparr>"
  have run: "check_word s t = Inr (t = w, ?s')"
    by (rule check_word_result [OF assms])
  have credit: "correct_chars ?s' = correct_chars s + matching_chars t w"
    by simp
  have a: "correct_chars ?s' =
             correct_chars s + int (card {i. i < min (length t) (length w) \<and> t ! i = w ! i})"
    using credit by (simp only: matching_chars_card)
  have b: "correct_chars ?s' - correct_chars s \<le> int (min (length t) (length w))"
    using credit matching_chars_le [of t w] by simp
  have c: "\<exists>ok2 s2. check_word s (t @ extra) = Inr (ok2, s2) \<and> correct_chars s2 = correct_chars ?s'"
    if "length w \<le> length t" for extra
  proof -
    let ?s2 = "if t @ extra = w
               then s\<lparr>correct_chars := correct_chars s + matching_chars (t @ extra) w,
                      correct_words := correct_words s + 1\<rparr>
               else s\<lparr>correct_chars := correct_chars s + matching_chars (t @ extra) w\<rparr>"
    have "check_word s (t @ extra) = Inr (t @ extra = w, ?s2)"
      by (rule check_word_result [OF assms])
    moreover have "correct_chars ?s2 = correct_chars s + matching_chars (t @ extra) w"
      by simp
    then have "correct_chars ?s2 = correct_chars ?s'"
      using credit by (simp only: matching_chars_extra [OF that])
    ultimately show ?thesis
      by blast
  qed
  have d: "correct_chars ?s' = correct_chars s"
    if "\<forall>i < min (length t) (length w). t ! i \<noteq> w ! i"
    using credit matching_chars_none [OF that] by simp
  from run a b c d show ?thesis
    by blast
qed

theorem check_word_character_credit_witness:
  "py_index (words (TypingSession 0 [py ''cat'', py ''dog'']))
            (current_word_index (TypingSession 0 [py ''cat'', py ''dog''])) = Inr (py ''cat'')
   \<and> length (py ''cat'') \<le> length (py ''atc'')
   \<and> \<not> (\<exists>i < min (length (py ''atc'')) (length (py ''cat'')). py ''atc'' ! i = py ''cat'' ! i)
   \<and> (\<exists>ok s'. check_word (TypingSession 0 [py ''cat'', py ''dog'']) (py ''atc'') = Inr (ok, s')
         \<and> correct_chars s' = 0
         \<and> (\<exists>ok2 s2. check_word (TypingSession 0 [py ''cat'', py ''dog'']) (py ''atc'' @ py ''xy'')
                          = Inr (ok2, s2) \<and> correct_chars s2 = 0))"
proof -
  let ?S = "TypingSession 0 [py ''cat'', py ''dog'']"
  have h: "py_index (words ?S) (current_word_index ?S) = Inr (py ''cat'')"
    by (simp add: TypingSession_def start_def py_index_def)
  have len: "length (py ''cat'') \<le> length (py ''atc'')"
    by (simp add: py_def)
  have diff: "\<forall>i < min (length (py ''atc'')) (length (py ''cat'')). py ''atc'' ! i \<noteq> py ''cat'' ! i"
    by (simp add: py_def nth_Cons' All_less_Suc numeral_3_eq_3)
  have zero: "correct_chars ?S = 0"
    by (simp add: TypingSession_def start_def)
  from check_word_character_credit [OF h, of "py ''atc''"]
  obtain ok s' where run: "check_word ?S (py ''atc'') = Inr (ok, s')"
    and extra: "length (py ''cat'') \<le> length (py ''atc'') \<longrightarrow>
                  (\<forall>extra. \<exists>ok2 s2. check_word ?S (py ''atc'' @ extra) = Inr (ok2, s2) \<and>
                                      correct_chars s2 = correct_chars s')"
    and none: "(\<forall>i < min (length (py ''atc'')) (length (py ''cat'')). py ''atc'' ! i \<noteq> py ''cat'' ! i)
                  \<longrightarrow> correct_chars s' = correct_chars ?S"
    by blast
  from none diff zero have c0: "correct_chars s' = 0"
    by simp
  from extra len obtain ok2 s2 where "check_word ?S (py ''atc'' @ py ''xy'') = Inr (ok2, s2)"
    and "correct_chars s2 = correct_chars s'"
    by blast
  with run c0 have "\<exists>ok s'. check_word ?S (py ''atc'') = Inr (ok, s') \<and> correct_chars s' = 0
         \<and> (\<exists>ok2 s2. check_word ?S (py ''atc'' @ py ''xy'') = Inr (ok2, s2) \<and> correct_chars s2 = 0)"
    by auto
  with h len diff show ?thesis
    by blast
qed

lemma list_eq_nth:
  "(t = w) = (length t = length w \<and> (\<forall>i < length w. t ! i = w ! i))"
  by (auto simp: list_eq_iff_nth_eq)

text \<open>
  Claim C2. When the current word \<open>w\<close> exists, \<open>check_word(t)\<close> returns true exactly when
  \<open>t == w\<close>, that is when the two have the same length and the same characters, and exactly
  then \<open>correct_words\<close> grows by one; otherwise it is unchanged. The per-character credit
  is added in both cases: a string that agrees with \<open>w\<close> on the overlap but has another
  length returns false, keeps \<open>correct_words\<close> and earns the length of the overlap.
\<close>

theorem check_word_exact_match:
  assumes "py_index (words s) (current_word_index s) = Inr w"
  shows "\<exists>ok s'. check_word s t = Inr (ok, s') \<and>
           (ok \<longleftrightarrow> t = w) \<and>
           (t = w \<longleftrightarrow> length t = length w \<and> (\<forall>i < length w. t ! i = w ! i)) \<and>
           (ok \<longleftrightarrow> correct_words s' = correct_words s + 1) \<and>
           (\<not> ok \<longrightarrow> correct_words s' = correct_words s) \<and>
           correct_chars s' = correct_chars s + matching_chars t w \<and>
           (length t \<noteq> length w \<and> (\<forall>i < min (length t) (length w). t ! i = w ! i) \<longrightarrow>
              \<not> ok \<and> correct_words s' = correct_words s \<and>
              correct_chars s' = correct_chars s + int (min (length t) (length w)))"
proof (cases "t = w")
  case True
  let ?s' = "s\<lparr>correct_chars := correct_chars s + matching_chars t w,
               correct_words := correct_words s + 1\<rparr>"
  have "check_word s t = Inr (True, ?s')"
    using check_word_result [OF assms, of t] True by simp
  moreover have "correct_words ?s' = correct_words s + 1"
    and "correct_chars ?s' = correct_chars s + matching_chars t w"
    by simp_all
  ultimately show ?thesis
    using True list_eq_nth [of t w] by (intro exI [of _ True] exI [of _ ?s']) simp
next
  case False
  let ?s' = "s\<lparr>correct_chars := correct_chars s + matching_chars t w\<rparr>"
  have "check_word s t = Inr (False, ?s')"
    using check_word_result [OF assms, of t] False by simp
  moreover have "correct_words ?s' = correct_words s"
    and "correct_chars ?s' = correct_chars s + matching_chars t w"
    by simp_all
  moreover have "matching_chars t w = int (min (length t) (length w))"
    if "\<forall>i < min (length t) (length w). t ! i = w ! i"
    by (rule matching_chars_all [OF that])
  ultimately show ?thesis
    using False list_eq_nth [of t w] by (intro exI [of _ False] exI [of _ ?s']) simp
qed


theorem check_word_exact_match_witness:
  "py_index (words (TypingSession 0 [py ''cat'', py ''dog'']))
            (current_word_index (TypingSession 0 [py ''cat'', py ''dog''])) = Inr (py ''cat'')
   \<and> length (py ''ca'') \<noteq> length (py ''cat'')
   \<and> \<not> (\<exists>i < min (length (py ''ca'')) (length (py ''cat'')). py ''ca'' ! i \<noteq> py ''cat'' ! i)
   \<and> (\<exists>s'. check_word (TypingSession 0 [py ''cat'', py ''dog'']) (py ''ca'') = Inr (False, s')
         \<and> correct_words s' = 0 \<and> correct_chars s' = 2)"
proof -
  let ?S = "TypingSession 0 [py ''cat'', py ''dog'']"
  have h: "py_index (words ?S) (current_word_index ?S) = Inr (py ''cat'')"
    by (simp add: TypingSession_def start_def py_index_def)
  have len: "length (py ''ca'') \<noteq> length (py ''cat'')"
    by (simp add: py_def)
  have same: "\<forall>i < min (length (py ''ca'')) (length (py ''cat'')). py ''ca'' ! i = py ''cat'' ! i"
    by (simp add: py_def nth_Cons' All_less_Suc numeral_2_eq_2)
  have zero: "correct_chars ?S = 0" "correct_words ?S = 0"
    by (simp_all add: TypingSession_def start_def)
  have two: "int (min (length (py ''ca'')) (length (py ''cat''))) = 2"
    by (simp add: py_def)
  from check_word_exact_match [OF h, of "py ''ca''"]
  obtain ok s' where run: "check_word ?S (py ''ca'') = Inr (ok, s')"
    and near: "length (py ''ca'') \<noteq> length (py ''cat'') \<and>
               (\<forall>i < min (length (py ''ca'')) (length (py ''cat'')). py ''ca'' ! i = py ''cat'' ! i) \<longrightarrow>
               \<not> ok \<and> correct_words s' = correct_words ?S \<and>
               correct_chars s' = correct_chars ?S + int (min (length (py ''ca'')) (length (py ''cat'')))"
    by blast
  from near len same have "\<not> ok" and "correct_words s' = correct_words ?S"
    and "correct_chars s' = correct_chars ?S + int (min (length (py ''ca'')) (length (py ''cat'')))"
    by blast+
  with run zero two
  have "\<exists>s'. check_word ?S (py ''ca'') = Inr (False, s') \<and> correct_words s' = 0 \<and> correct_chars s' = 2"
    by simp
  with h len same show ?thesis
    by blast
qed

section \<open>The sample of \<open>get_list\<close>\<close>

lemma pool_vacancy:
  assumes "j < length pool"
  shows "add_mset (pool ! j) (mset (butlast (pool[j := last pool]))) = mset pool"
proof -
  from assms have "pool \<noteq> []"
    by auto
  then obtain xs l where pool: "pool = xs @ [l]"
    by (cases pool rule: rev_cases) auto
  show ?thesis
  proof (cases "j = length xs")
    case True
    then show ?thesis
      by (simp add: pool)
  next
    case False
    with assms pool have j: "j < length xs"
      by simp
    then have "butlast (pool[j := last pool]) = xs[j := l]"
      by (simp add: pool list_update_append)
    moreover have "pool ! j = xs ! j"
      using j by (simp add: pool nth_append)
    moreover have "add_mset (xs ! j) (mset (xs[j := l])) = add_mset l (mset xs)"
      using j by (simp add: mset_update)
    ultimately show ?thesis
      by (simp add: pool)
  qed
qed

lemma length_sample_loop: "length (sample_loop r i pool k) = k"
  by (induction k arbitrary: i pool) (simp_all add: Let_def)

lemma mset_sample_loop:
  "k \<le> length pool \<Longrightarrow> mset (sample_loop r i pool k) \<subseteq># mset pool"
proof (induction k arbitrary: i pool)
  case 0
  then show ?case by simp
next
  case (Suc k)
  let ?j = "r i mod length pool"
  let ?rest = "butlast (pool[?j := last pool])"
  from Suc.prems have "0 < length pool"
    by (cases pool) simp_all
  then have j: "?j < length pool"
    by (rule mod_less_divisor)
  from Suc.prems have "k \<le> length ?rest"
    by simp
  then have "mset (sample_loop r (Suc i) ?rest k) \<subseteq># mset ?rest"
    by (rule Suc.IH)
  then have "add_mset (pool ! ?j) (mset (sample_loop r (Suc i) ?rest k))
               \<subseteq># add_mset (pool ! ?j) (mset ?rest)"
    by simp
  then show ?case
    by (simp add: Let_def pool_vacancy [OF j])
qed

lemma sample_returns:
  "k \<le> length population \<Longrightarrow>
     sample r population k = Inr (sample_loop r 0 population k)"
  by (simp add: sample_def)

lemma mset_sample_all:
  "mset (sample_loop r i pool (length pool)) = mset pool"
proof -
  have "mset (sample_loop r i pool (length pool)) \<subseteq># mset pool"
    by (rule mset_sample_loop) simp
  moreover have "size (mset (sample_loop r i pool (length pool))) = size (mset pool)"
    by (simp add: length_sample_loop)
  ultimately show ?thesis
    using mset_subset_size [of "mset (sample_loop r i pool (length pool))" "mset pool"]
    by (auto simp: subset_mset.le_less)
qed

lemma get_list_result:
  assumes "wordslist.words_list self = Some ws"
  shows "get_list r self =
           Inr (sample_loop r 0 (filter (\<lambda>word. length word \<le> 8) ws)
                  (min 200 (length (filter (\<lambda>word. length word \<le> 8) ws))))"
  using assms by (simp add: get_list_def sample_def Let_def)

text \<open>
  Claim C4. For every word list retained and every random source, \<open>get_list\<close> returns a
  pool whose length is the smaller of 200 and the number of source words of length at most
  8; every word of the pool has length at most 8; the pool is drawn without replacement
  from the filtered words (as a multiset it is contained in them); and when no source word
  is that short the pool is empty.
\<close>

theorem get_list_sample:
  assumes "wordslist.words_list self = Some ws"
  shows "\<exists>pool. get_list r self = Inr pool \<and>
           length pool = min 200 (length (filter (\<lambda>word. length word \<le> 8) ws)) \<and>
           (\<forall>word \<in> set pool. length word \<le> 8) \<and>
           mset pool \<subseteq># mset (filter (\<lambda>word. length word \<le> 8) ws) \<and>
           ((\<forall>word \<in> set ws. 8 < length word) \<longrightarrow> pool = [])"
proof -
  let ?filtered = "filter (\<lambda>word. length word \<le> 8) ws"
  let ?pool = "sample_loop r 0 ?filtered (min 200 (length ?filtered))"
  have run: "get_list r self = Inr ?pool"
    by (rule get_list_result [OF assms])
  have len: "length ?pool = min 200 (length ?filtered)"
    by (rule length_sample_loop)
  have sub: "mset ?pool \<subseteq># mset ?filtered"
    by (rule mset_sample_loop) simp
  have short: "\<forall>word \<in> set ?pool. length word \<le> 8"
  proof
    fix word assume "word \<in> set ?pool"
    then have "word \<in># mset ?pool"
      by simp
    with sub have "word \<in># mset ?filtered"
      by (rule mset_subset_eqD)
    then show "length word \<le> 8"
      by simp
  qed
  have none: "?pool = []" if "\<forall>word \<in> set ws. 8 < length word"
  proof -
    from that have "?filtered = []"
      by (auto simp: filter_empty_conv)
    then show ?thesis
      by simp
  qed
  from run len sub short none show ?thesis
    by blast
qed

theorem get_list_sample_witness:
  "get_list (\<lambda>i. 1)
     \<lparr>wordslist.words_list = Some [py ''typing'', py ''extraordinary'', py ''cat''],
      wordslist.idiom = None\<rparr> = Inr [py ''cat'', py ''typing'']
   \<and> length [py ''cat'', py ''typing'']
       = min 200 (length (filter (\<lambda>word. length word \<le> 8)
                                [py ''typing'', py ''extraordinary'', py ''cat'']))
   \<and> mset [py ''cat'', py ''typing'']
       \<subseteq># mset (filter (\<lambda>word. length word \<le> 8)
                       [py ''typing'', py ''extraordinary'', py ''cat''])
   \<and> \<not> (\<exists>word \<in> set [py ''extraordinary'']. length word \<le> 8)
   \<and> get_list (\<lambda>i. 1)
         \<lparr>wordslist.words_list = Some [py ''extraordinary''], wordslist.idiom = None\<rparr> = Inr []"
proof -
  let ?ws = "[py ''typing'', py ''extraordinary'', py ''cat'']"
  let ?W = "\<lparr>wordslist.words_list = Some ?ws, wordslist.idiom = None\<rparr>"
  let ?V = "\<lparr>wordslist.words_list = Some [py ''extraordinary''], wordslist.idiom = None\<rparr>"
  have run: "get_list (\<lambda>i. 1) ?W = Inr [py ''cat'', py ''typing'']"
    by (simp add: get_list_def sample_def py_def Let_def numeral_2_eq_2)
  have long: "\<forall>word \<in> set [py ''extraordinary'']. 8 < length word"
    by (simp add: py_def)
  from get_list_sample [of ?W ?ws "\<lambda>i. 1"]
  obtain pool where "get_list (\<lambda>i. 1) ?W = Inr pool"
    and "length pool = min 200 (length (filter (\<lambda>word. length word \<le> 8) ?ws))"
    and "mset pool \<subseteq># mset (filter (\<lambda>word. length word \<le> 8) ?ws)"
    by auto
  with run have a: "length [py ''cat'', py ''typing'']
                      = min 200 (length (filter (\<lambda>word. length word \<le> 8) ?ws))"
    and b: "mset [py ''cat'', py ''typing'']
              \<subseteq># mset (filter (\<lambda>word. length word \<le> 8) ?ws)"
    by simp_all
  from get_list_sample [of ?V "[py ''extraordinary'']" "\<lambda>i. 1"]
  obtain none where "get_list (\<lambda>i. 1) ?V = Inr none"
    and "(\<forall>word \<in> set [py ''extraordinary'']. 8 < length word) \<longrightarrow> none = []"
    by auto
  with long have c: "get_list (\<lambda>i. 1) ?V = Inr []"
    by blast
  from long have d: "\<not> (\<exists>word \<in> set [py ''extraordinary'']. length word \<le> 8)"
    by auto
  show ?thesis
    by (intro conjI) (fact run a b d c)+
qed

text \<open>
  Claim C9, amended. \<open>get_list\<close> neither tests nor changes the case of a character: every
  word of the pool is one of the source words of length at most 8, unchanged. So the pool
  is lowercase whenever those source words are, and only then for certain.
\<close>

theorem get_list_keeps_source_words:
  assumes "wordslist.words_list self = Some ws"
  shows "\<exists>pool. get_list r self = Inr pool \<and>
           set pool \<subseteq> {word \<in> set ws. length word \<le> 8} \<and>
           ((\<forall>word \<in> set ws. length word \<le> 8 \<longrightarrow> spec_lowercase word) \<longrightarrow>
              (\<forall>word \<in> set pool. spec_lowercase word))"
proof -
  let ?filtered = "filter (\<lambda>word. length word \<le> 8) ws"
  let ?pool = "sample_loop r 0 ?filtered (min 200 (length ?filtered))"
  have run: "get_list r self = Inr ?pool"
    by (rule get_list_result [OF assms])
  have "mset ?pool \<subseteq># mset ?filtered"
    by (rule mset_sample_loop) simp
  then have "set_mset (mset ?pool) \<subseteq> set_mset (mset ?filtered)"
    by (rule set_mset_mono)
  then have sub: "set ?pool \<subseteq> {word \<in> set ws. length word \<le> 8}"
    by simp
  then have "\<forall>word \<in> set ?pool. spec_lowercase word"
    if "\<forall>word \<in> set ws. length word \<le> 8 \<longrightarrow> spec_lowercase word"
    using that by blast
  with run sub show ?thesis
    by blast
qed

theorem get_list_keeps_source_words_witness:
  "\<not> (\<exists>word \<in> set [py ''typing'', py ''Extraordinary'', py ''cat''].
          length word \<le> 8 \<and> \<not> spec_lowercase word)
   \<and> get_list (\<lambda>i. 1)
         \<lparr>wordslist.words_list = Some [py ''typing'', py ''Extraordinary'', py ''cat''],
          wordslist.idiom = None\<rparr> = Inr [py ''cat'', py ''typing'']
   \<and> spec_lowercase (py ''cat'') \<and> spec_lowercase (py ''typing'')"
proof -
  let ?ws = "[py ''typing'', py ''Extraordinary'', py ''cat'']"
  let ?W = "\<lparr>wordslist.words_list = Some ?ws, wordslist.idiom = None\<rparr>"
  have run: "get_list (\<lambda>i. 1) ?W = Inr [py ''cat'', py ''typing'']"
    by (simp add: get_list_def sample_def py_def Let_def numeral_2_eq_2)
  have low: "\<forall>word \<in> set ?ws. length word \<le> 8 \<longrightarrow> spec_lowercase word"
    by (simp add: py_def spec_lowercase_def)
  from get_list_keeps_source_words [of ?W ?ws "\<lambda>i. 1"]
  obtain pool where p1: "get_list (\<lambda>i. 1) ?W = Inr pool"
    and p2: "(\<forall>word \<in> set ?ws. length word \<le> 8 \<longrightarrow> spec_lowercase word) \<longrightarrow>
           (\<forall>word \<in> set pool. spec_lowercase word)"
    by auto
  from p1 run have eq: "pool = [py ''cat'', py ''typing'']"
    by simp
  from p2 low have "\<forall>word \<in> set pool. spec_lowercase word"
    by (rule mp)
  then have "\<forall>word \<in> set [py ''cat'', py ''typing'']. spec_lowercase word"
    unfolding eq .
  then have c: "spec_lowercase (py ''cat'')" and t: "spec_lowercase (py ''typing'')"
    by simp_all
  from low have l: "\<not> (\<exists>word \<in> set ?ws. length word \<le> 8 \<and> \<not> spec_lowercase word)"
    by (simp only: bex_simps ball_simps not_not de_Morgan_conj imp_conv_disj)
  show ?thesis
    by (intro conjI) (fact l run c t)+
qed

text \<open>
  Claim C9 as stated, every word of every pool is lowercase for every source list, fails
  for a source list with a capitalised word: the word is returned as it is.
\<close>

theorem get_list_uppercase_counterexample:
  "get_list id \<lparr>wordslist.words_list = Some [py ''Hello''], wordslist.idiom = None\<rparr>
     = Inr [py ''Hello'']
   \<and> \<not> spec_lowercase (py ''Hello'')"
  by (simp add: get_list_def sample_def py_def Let_def spec_lowercase_def)

section \<open>The fetch and its fallback\<close>

lemma fallback_words_short:
  "filter (\<lambda>word. length word \<le> 8) fallback_words = fallback_words"
  by (simp add: fallback_words_def py_def)

lemma length_fallback_words: "length fallback_words = 7"
  by (simp add: fallback_words_def)

text \<open>
  Claim C7. Whatever exception of class \<open>Exception\<close> the request or the parsing of the
  response raises (a timeout, an unreachable host and a malformed response are such),
  \<open>get_words\<close> returns normally, has retained exactly the seven fallback words and has
  printed one diagnostic line; the rest of the object is unchanged. When the request
  returns a list, exactly that list is retained and nothing is printed.
\<close>

theorem get_words_never_raises:
  "(\<forall>e msg. net (request_url lang_code) = Raises e msg \<and> is_Exception e \<longrightarrow>
      get_words net self lang_code
        = Inr (self\<lparr>wordslist.words_list :=
                       Some (map py [''default'', ''word'', ''list'', ''in'', ''case'', ''of'', ''error''])\<rparr>,
               [py ''Unable to load words: '' @ msg]))
   \<and> (\<forall>ws. net (request_url lang_code) = Returns ws \<longrightarrow>
          get_words net self lang_code = Inr (self\<lparr>wordslist.words_list := Some ws\<rparr>, []))
   \<and> is_Exception Timeout \<and> is_Exception JSONDecodeError \<and> is_Exception ConnectionError
   \<and> length (map py [''default'', ''word'', ''list'', ''in'', ''case'', ''of'', ''error'']) = 7"
  by (simp add: get_words_def fallback_words_def)

theorem get_words_never_raises_witness:
  "get_words (\<lambda>url. Raises Timeout (py ''timed out'')) 
      \<lparr>wordslist.words_list = None, wordslist.idiom = Some (py ''pt-br'')\<rparr> (Some (py ''pt-br''))
     = Inr (\<lparr>wordslist.words_list =
                Some (map py [''default'', ''word'', ''list'', ''in'', ''case'', ''of'', ''error'']),
             wordslist.idiom = Some (py ''pt-br'')\<rparr>,
            [py ''Unable to load words: '' @ py ''timed out''])
   \<and> get_words (\<lambda>url. Returns [py ''gato'', py ''casa''])
        \<lparr>wordslist.words_list = None, wordslist.idiom = Some (py ''pt-br'')\<rparr> (Some (py ''pt-br''))
     = Inr (\<lparr>wordslist.words_list = Some [py ''gato'', py ''casa''],
             wordslist.idiom = Some (py ''pt-br'')\<rparr>, [])"
proof -
  let ?self = "\<lparr>wordslist.words_list = None, wordslist.idiom = Some (py ''pt-br'')\<rparr>"
  have t: "is_Exception Timeout"
    by simp
  from get_words_never_raises [of "\<lambda>url. Raises Timeout (py ''timed out'')" "Some (py ''pt-br'')" ?self] t
  have a: "get_words (\<lambda>url. Raises Timeout (py ''timed out'')) ?self (Some (py ''pt-br''))
        = Inr (?self\<lparr>wordslist.words_list :=
                       Some (map py [''default'', ''word'', ''list'', ''in'', ''case'', ''of'', ''error''])\<rparr>,
               [py ''Unable to load words: '' @ py ''timed out''])"
    by blast
  from get_words_never_raises [of "\<lambda>url. Returns [py ''gato'', py ''casa'']" "Some (py ''pt-br'')" ?self]
  have b: "get_words (\<lambda>url. Returns [py ''gato'', py ''casa'']) ?self (Some (py ''pt-br''))
        = Inr (?self\<lparr>wordslist.words_list := Some [py ''gato'', py ''casa'']\<rparr>, [])"
    by blast
  from a b show ?thesis
    by simp
qed

text \<open>
  Claim C10. After a failed fetch the pool of \<open>get_list\<close> is never empty: the seven
  fallback words all have length at most 8, and the pool holds all seven (in some order),
  for every random source. An empty pool can only come from a fetch that returned a list
  none of whose words has length at most 8.
\<close>

theorem fallback_pool_never_empty:
  "(\<forall>e msg. net (request_url lang_code) = Raises e msg \<and> is_Exception e \<longrightarrow>
      (\<exists>obj printed pool.
          WordsList net lang_code = Inr (obj, printed) \<and> get_list r obj = Inr pool \<and>
          length pool = 7 \<and> mset pool = mset fallback_words \<and> pool \<noteq> []))
   \<and> (\<forall>word \<in> set fallback_words. length word \<le> 8)
   \<and> length fallback_words = 7
   \<and> (\<forall>obj printed. WordsList net lang_code = Inr (obj, printed) \<and> get_list r obj = Inr [] \<longrightarrow>
          (\<exists>ws. net (request_url lang_code) = Returns ws \<and>
                (\<forall>word \<in> set ws. 8 < length word)))"
proof -
  let ?w0 = "\<lparr>wordslist.words_list = None, wordslist.idiom = lang_code\<rparr>"
  let ?fb = "?w0\<lparr>wordslist.words_list := Some fallback_words\<rparr>"
  let ?pool = "sample_loop r 0 fallback_words (length fallback_words)"
  have pool: "get_list r ?fb = Inr ?pool"
    using get_list_result [of ?fb fallback_words r]
    by (simp add: fallback_words_short length_fallback_words)
  have len: "length ?pool = 7"
    by (simp add: length_sample_loop length_fallback_words)
  have perm: "mset ?pool = mset fallback_words"
    by (rule mset_sample_all)
  from len have ne: "?pool \<noteq> []"
    by auto
  have failure: "\<exists>obj printed pool.
          WordsList net lang_code = Inr (obj, printed) \<and> get_list r obj = Inr pool \<and>
          length pool = 7 \<and> mset pool = mset fallback_words \<and> pool \<noteq> []"
    if "net (request_url lang_code) = Raises e msg" and "is_Exception e" for e msg
  proof -
    from that have "WordsList net lang_code
                      = Inr (?fb, [py ''Unable to load words: '' @ msg])"
      by (simp add: WordsList_def get_words_def)
    with pool len perm ne show ?thesis
      by blast
  qed
  have short: "\<forall>word \<in> set fallback_words. length word \<le> 8"
    by (simp add: fallback_words_def py_def)
  have empty: "\<exists>ws. net (request_url lang_code) = Returns ws \<and>
                (\<forall>word \<in> set ws. 8 < length word)"
    if w: "WordsList net lang_code = Inr (obj, printed)" and g: "get_list r obj = Inr []"
    for obj printed
  proof (cases "net (request_url lang_code)")
    case (Returns ws)
    with w have obj: "obj = ?w0\<lparr>wordslist.words_list := Some ws\<rparr>"
      by (simp add: WordsList_def get_words_def)
    then have "wordslist.words_list obj = Some ws"
      by simp
    from get_list_result [OF this, of r] g
    have "sample_loop r 0 (filter (\<lambda>word. length word \<le> 8) ws)
            (min 200 (length (filter (\<lambda>word. length word \<le> 8) ws))) = []"
      by simp
    then have "min 200 (length (filter (\<lambda>word. length word \<le> 8) ws)) = 0"
      using length_sample_loop [of r 0 "filter (\<lambda>word. length word \<le> 8) ws"
                                  "min 200 (length (filter (\<lambda>word. length word \<le> 8) ws))"]
      by simp
    then have "length (filter (\<lambda>word. length word \<le> 8) ws) = 0"
      by (simp add: min_def split: if_splits)
    then have "filter (\<lambda>word. length word \<le> 8) ws = []"
      by (simp only: length_0_conv)
    then have "\<forall>word \<in> set ws. 8 < length word"
      by (auto simp: filter_empty_conv)
    with Returns show ?thesis
      by blast
  next
    case (Raises e msg)
    show ?thesis
    proof (cases "is_Exception e")
      case True
      with Raises w have "obj = ?fb"
        by (simp add: WordsList_def get_words_def)
      with pool g have "?pool = []"
        by simp
      with ne show ?thesis
        by simp
    next
      case False
      with Raises w show ?thesis
        by (simp add: WordsList_def get_words_def)
    qed
  qed
  from failure short length_fallback_words empty show ?thesis
    by blast
qed

theorem fallback_pool_never_empty_witness:
  "is_Exception ConnectionError
   \<and> (\<exists>obj printed pool.
         WordsList (\<lambda>url. Raises ConnectionError (py ''unreachable'')) None = Inr (obj, printed) \<and>
         get_list id obj = Inr pool \<and> length pool = 7 \<and> pool \<noteq> [])
   \<and> WordsList (\<lambda>url. Returns [py ''extraordinary'']) None
       = Inr (\<lparr>wordslist.words_list = Some [py ''extraordinary''], wordslist.idiom = None\<rparr>, [])
   \<and> get_list id \<lparr>wordslist.words_list = Some [py ''extraordinary''], wordslist.idiom = None\<rparr>
       = Inr []
   \<and> (\<exists>ws. Returns [py ''extraordinary''] = Returns ws \<and>
             \<not> (\<exists>word \<in> set ws. length word \<le> 8))"
proof -
  let ?down = "\<lambda>url::pystr. Raises ConnectionError (py ''unreachable'')"
  let ?long = "\<lambda>url::pystr. Returns [py ''extraordinary'']"
  let ?obj = "\<lparr>wordslist.words_list = Some [py ''extraordinary''], wordslist.idiom = None\<rparr>"
  have exc: "is_Exception ConnectionError"
    by simp
  have down: "?down (request_url None) = Raises ConnectionError (py ''unreachable'')"
    by simp
  from fallback_pool_never_empty [of ?down None id] down exc
  have a: "\<exists>obj printed pool.
         WordsList ?down None = Inr (obj, printed) \<and>
         get_list id obj = Inr pool \<and> length pool = 7 \<and> pool \<noteq> []"
    by blast
  have b: "WordsList ?long None = Inr (?obj, [])"
    by (simp add: WordsList_def get_words_def)
  have c: "get_list id ?obj = Inr []"
    by (simp add: get_list_def sample_def py_def Let_def)
  from fallback_pool_never_empty [of ?long None id] b c
  have "\<exists>ws. ?long (request_url None) = Returns ws \<and> (\<forall>word \<in> set ws. 8 < length word)"
    by blast
  then have d: "\<exists>ws. Returns [py ''extraordinary''] = Returns ws \<and>
             \<not> (\<exists>word \<in> set ws. length word \<le> 8)"
    by (simp add: not_le)
  show ?thesis
    by (intro conjI) (fact exc a b c d)+
qed

section \<open>The score file\<close>

lemma digits_value_snoc: "digits_value (ds @ [c]) = 10 * digits_value ds + (c - 48)"
  by (simp add: digits_value_def)

lemma digits_not_empty: "digits n \<noteq> []"
  by (subst digits.simps) simp

lemma digits_all_digit: "list_all is_digit (digits n)"
proof (induction n rule: digits.induct)
  case (1 n)
  show ?case
  proof (cases "n < 10")
    case True
    then show ?thesis
      by (subst digits.simps) (simp add: is_digit_def)
  next
    case False
    have "n mod 10 < 10"
      by simp
    then have "is_digit (48 + n mod 10)"
      unfolding is_digit_def by linarith
    with False "1.IH" show ?thesis
      by (subst digits.simps) simp
  qed
qed

lemma digits_value_digits: "digits_value (digits n) = n"
proof (induction n rule: digits.induct)
  case (1 n)
  show ?case
  proof (cases "n < 10")
    case True
    then show ?thesis
      by (subst digits.simps) (simp add: digits_value_def)
  next
    case False
    with "1.IH" show ?thesis
      by (subst digits.simps) (simp add: digits_value_snoc)
  qed
qed

lemma parse_digits_digits: "parse_digits (digits n) = Inr n"
  by (simp add: parse_digits_def digits_not_empty digits_all_digit digits_value_digits)

lemma digits_head: "\<exists>c rest. digits n = c # rest \<and> is_digit c"
proof -
  obtain c rest where eq: "digits n = c # rest"
    using digits_not_empty [of n] by (cases "digits n") auto
  with digits_all_digit [of n] have "is_digit c"
    by simp
  with eq show ?thesis
    by blast
qed

lemma py_int_of_str_py_str: "py_int_of_str (py_str i) = Inr i"
proof (cases "i < 0")
  case True
  then show ?thesis
    by (simp add: py_str_def py_int_of_str_def and_then_def parse_digits_digits)
next
  case False
  obtain c rest where eq: "digits (nat i) = c # rest" and c: "is_digit c"
    using digits_head by blast
  from c have "c \<noteq> 45" and "c \<noteq> 43"
    by (auto simp: is_digit_def)
  moreover have "parse_digits (c # rest) = Inr (nat i)"
    using parse_digits_digits [of "nat i"] by (simp only: eq)
  ultimately show ?thesis
    using False by (simp add: py_str_def py_int_of_str_def and_then_def eq)
qed

lemma py_str_not_CPM: "py_str i \<noteq> py ''CPM''"
proof
  assume a: "py_str i = py ''CPM''"
  have "py_int_of_str (py ''CPM'') = Inl ValueError"
    by (simp add: py_int_of_str_def py_def and_then_def parse_digits_def is_digit_def)
  with a py_int_of_str_py_str [of i] show False
    by simp
qed

lemma read_last_score_written:
  assumes "csv \<noteq> Some []"
  shows "read_last_score (write_score [f0, f1, py_str c, py_str v] csv)
           = Inr (Some \<lparr>date = f0, lang = f1, cpm = c, last_score.wpm = v\<rparr>)"
proof (cases csv)
  case None
  then show ?thesis
    by (simp add: write_score_def read_last_score_def py_index_def and_then_def
                  py_int_of_str_py_str)
next
  case (Some rows)
  with assms have "rows \<noteq> []"
    by simp
  then have "\<not> length (rows @ [[f0, f1, py_str c, py_str v]]) \<le> 1"
    by (cases rows) simp_all
  moreover have "py_index (rows @ [[f0, f1, py_str c, py_str v]]) (- 1)
                   = Inr [f0, f1, py_str c, py_str v]"
    by (simp add: py_index_def nat_add_distrib)
  ultimately show ?thesis
    using Some
    by (simp add: write_score_def read_last_score_def and_then_def py_int_of_str_py_str
                  py_index_def del: length_append)
qed

lemma score_row_not_header: "score_row d l s \<noteq> header_row"
  using py_str_not_CPM [of "py_int (cpm_corrected s)"]
  by (simp add: score_row_def header_row_def)

lemma score_csv_saved_scores:
  "score_csv (saved_scores xs w) =
     (case score_csv w of
        None \<Rightarrow> if xs = [] then None
                 else Some (header_row # map (\<lambda>(d, l, s). score_row d l s) xs)
      | Some rows \<Rightarrow> Some (rows @ map (\<lambda>(d, l, s). score_row d l s) xs))"
proof (induction xs arbitrary: w)
  case Nil
  then show ?case
    by (simp split: option.split)
next
  case (Cons x xs)
  obtain d l s where x: "x = (d, l, s)"
    by (cases x) auto
  show ?case
    by (simp add: x Cons.IH save_score_to_csv_def write_score_def split: option.split)
qed

text \<open>
  Claim C8. When the score file is absent or holds at least one row (as every file written
  by \<open>save_score_to_csv\<close> does), saving a score and reading the last score returns the date,
  the language tag and the two integer-truncated metrics that were written. Reading
  returns nothing when the file is absent or holds the header row only. The header row is
  written when the file is created and never again: after any number of saves that start
  without a file, the file is the header followed by one row per save, none of them the
  header; a save to an existing file only appends its row.
\<close>

theorem score_log_round_trip:
  "(score_csv w \<noteq> Some [] \<longrightarrow>
      get_last_score (save_score_to_csv d w)
        = Inr (Some \<lparr>date = d,
                      lang = (case window.idiom w of
                                None \<Rightarrow> py ''en''
                              | Some l \<Rightarrow> if l = [] then py ''en'' else l),
                      cpm = py_int (cpm_corrected (session w)),
                      last_score.wpm = py_int (session.wpm (session w))\<rparr>))
   \<and> (score_csv w = None \<longrightarrow> get_last_score w = Inr None)
   \<and> (score_csv w = Some [header_row] \<longrightarrow> get_last_score w = Inr None)
   \<and> (score_csv w = None \<and> xs \<noteq> [] \<longrightarrow>
        (\<exists>rows. score_csv (saved_scores xs w) = Some (header_row # rows) \<and>
                length rows = length xs \<and> header_row \<notin> set rows))
   \<and> (\<forall>rows. score_csv w = Some rows \<longrightarrow>
          score_csv (save_score_to_csv d w)
            = Some (rows @ [score_row d (window.idiom w) (session w)]))"
proof -
  have a: "get_last_score (save_score_to_csv d w)
        = Inr (Some \<lparr>date = d,
                      lang = (case window.idiom w of
                                None \<Rightarrow> py ''en''
                              | Some l \<Rightarrow> if l = [] then py ''en'' else l),
                      cpm = py_int (cpm_corrected (session w)),
                      last_score.wpm = py_int (session.wpm (session w))\<rparr>)"
    if "score_csv w \<noteq> Some []"
    using read_last_score_written [OF that]
    by (simp add: get_last_score_def save_score_to_csv_def score_row_def)
  have b: "get_last_score w = Inr None" if "score_csv w = None"
    using that by (simp add: get_last_score_def read_last_score_def)
  have c: "get_last_score w = Inr None" if "score_csv w = Some [header_row]"
    using that by (simp add: get_last_score_def read_last_score_def)
  have d: "\<exists>rows. score_csv (saved_scores xs w) = Some (header_row # rows) \<and>
                length rows = length xs \<and> header_row \<notin> set rows"
    if "score_csv w = None" and "xs \<noteq> []"
  proof -
    let ?rows = "map (\<lambda>(d, l, s). score_row d l s) xs"
    from that have "score_csv (saved_scores xs w) = Some (header_row # ?rows)"
      by (simp add: score_csv_saved_scores)
    moreover have "length ?rows = length xs"
      by simp
    moreover have "header_row \<notin> set ?rows"
      using score_row_not_header by (auto simp: image_iff) metis
    ultimately show ?thesis
      by blast
  qed
  have e: "score_csv (save_score_to_csv d w)
            = Some (rows @ [score_row d (window.idiom w) (session w)])"
    if "score_csv w = Some rows" for rows
    using that by (simp add: save_score_to_csv_def write_score_def)
  from a b c d e show ?thesis
    by blast
qed

theorem score_log_round_trip_witness:
  "(let W = \<lparr>window.idiom = Some (py ''pt-br''), window.words_list = [py ''gato''],
              after_id = False, words_indexes = [(0, 4)],
              session = (TypingSession 100 [py ''gato''])
                          \<lparr>cpm_corrected := 1879 / 10, session.wpm := 3758 / 100\<rparr>,
              window.timer_started = True, typed_text_entry = [],
              typed_text_entry_state = DISABLED, recent_score_entry = [],
              corrected_cpm_entry = [], wpm_entry = [], time_entry = py ''0'',
              timer_pending = False, score_csv = None, messagebox_shown = 0\<rparr>;
        now = py ''2024-05-01 10:00:00''
    in get_last_score W = Inr None
       \<and> get_last_score (W\<lparr>score_csv := Some [header_row]\<rparr>) = Inr None
       \<and> get_last_score (save_score_to_csv now W)
           = Inr (Some \<lparr>date = now, lang = py ''pt-br'', cpm = 187, last_score.wpm = 37\<rparr>)
       \<and> score_csv (saved_scores [(now, Some (py ''pt-br''), session W)] W)
           = Some [header_row, [now, py ''pt-br'', py ''187'', py ''37'']]
       \<and> score_csv (save_score_to_csv now (W\<lparr>score_csv := Some [header_row]\<rparr>))
           = Some [header_row, [now, py ''pt-br'', py ''187'', py ''37'']])"
proof -
  let ?S = "(TypingSession 100 [py ''gato''])
              \<lparr>cpm_corrected := 1879 / 10, session.wpm := 3758 / 100\<rparr>"
  let ?W = "\<lparr>window.idiom = Some (py ''pt-br''), window.words_list = [py ''gato''],
              after_id = False, words_indexes = [(0, 4)],
              session = ?S,
              window.timer_started = True, typed_text_entry = [],
              typed_text_entry_state = DISABLED, recent_score_entry = [],
              corrected_cpm_entry = [], wpm_entry = [], time_entry = py ''0'',
              timer_pending = False, score_csv = None, messagebox_shown = 0\<rparr>"
  let ?H = "?W\<lparr>score_csv := Some [header_row]\<rparr>"
  let ?now = "py ''2024-05-01 10:00:00''"
  let ?xs = "[(?now, Some (py ''pt-br''), ?S)]"
  have absent: "score_csv ?W = None" and ne: "score_csv ?W \<noteq> Some []"
    and hdr: "score_csv ?H = Some [header_row]" and xs: "?xs \<noteq> []"
    by simp_all
  have trunc: "py_int (cpm_corrected ?S) = 187" "py_int (session.wpm ?S) = 37"
    by (simp_all add: py_int_def)
  have lang: "(case window.idiom ?W of None \<Rightarrow> py ''en''
               | Some l \<Rightarrow> if l = [] then py ''en'' else l) = py ''pt-br''"
    by (simp add: py_def)
  have row: "score_row ?now (Some (py ''pt-br'')) ?S = [?now, py ''pt-br'', py ''187'', py ''37'']"
    by (simp add: score_row_def py_int_def py_str_def py_def digits.simps)
  note rt = score_log_round_trip [of ?W ?now ?xs]
  from rt absent have a: "get_last_score ?W = Inr None"
    by blast
  from score_log_round_trip [of ?H ?now ?xs] hdr have b: "get_last_score ?H = Inr None"
    by blast
  from rt ne have "get_last_score (save_score_to_csv ?now ?W)
        = Inr (Some \<lparr>date = ?now,
                      lang = (case window.idiom ?W of None \<Rightarrow> py ''en''
                              | Some l \<Rightarrow> if l = [] then py ''en'' else l),
                      cpm = py_int (cpm_corrected (session ?W)),
                      last_score.wpm = py_int (session.wpm (session ?W))\<rparr>)"
    by blast
  then have c: "get_last_score (save_score_to_csv ?now ?W)
        = Inr (Some \<lparr>date = ?now, lang = py ''pt-br'', cpm = 187, last_score.wpm = 37\<rparr>)"
    using trunc lang by simp
  from rt absent xs obtain rows
    where "score_csv (saved_scores ?xs ?W) = Some (header_row # rows)"
    by blast
  moreover have "score_csv (saved_scores ?xs ?W) = Some [header_row, score_row ?now (Some (py ''pt-br'')) ?S]"
    by (simp add: save_score_to_csv_def write_score_def)
  ultimately have d: "score_csv (saved_scores ?xs ?W)
                        = Some [header_row, [?now, py ''pt-br'', py ''187'', py ''37'']]"
    using row by simp
  from score_log_round_trip [of ?H ?now ?xs] hdr
  have "score_csv (save_score_to_csv ?now ?H)
          = Some ([header_row] @ [score_row ?now (window.idiom ?H) (session ?H)])"
    by blast
  then have e: "score_csv (save_score_to_csv ?now ?H)
                  = Some [header_row, [?now, py ''pt-br'', py ''187'', py ''37'']]"
    using row by simp
  from a b c d e show ?thesis
    unfolding Let_def by simp
qed

section \<open>The countdown\<close>

lemma update_timer_counting:
  assumes "0 < time_left (session w)"
  shows "time_left (session (update_timer e w)) = time_left (session w) - 1"
    and "typed_text_entry_state (update_timer e w) = typed_text_entry_state w"
    and "messagebox_shown (update_timer e w) = messagebox_shown w"
    and "score_csv (update_timer e w) = score_csv w"
    and "timer_pending (update_timer e w)"
  using assms by (simp_all add: update_timer_def Let_def)

lemma update_timer_ending:
  assumes "\<not> 0 < time_left (session w)"
  shows "time_left (session (update_timer e w)) = time_left (session w)"
    and "typed_text_entry_state (update_timer e w) = DISABLED"
    and "messagebox_shown (update_timer e w) = messagebox_shown w + 1"
    and "score_csv (update_timer e w)
           = write_score (score_row (date_now e) (window.idiom w) (session w)) (score_csv w)"
    and "timer_pending (update_timer e w) = timer_pending w"
  using assms by (simp_all add: update_timer_def end_test_def save_score_to_csv_def Let_def)

lemma ticks_counting:
  "int (length es) \<le> time_left (session w) \<Longrightarrow>
     time_left (session (ticks es w)) = time_left (session w) - int (length es) \<and>
     typed_text_entry_state (ticks es w) = typed_text_entry_state w \<and>
     messagebox_shown (ticks es w) = messagebox_shown w \<and>
     score_csv (ticks es w) = score_csv w"
proof (induction es arbitrary: w)
  case Nil
  then show ?case by simp
next
  case (Cons e es)
  from Cons.prems have pos: "0 < time_left (session w)"
    by simp
  note step = update_timer_counting [OF pos, of e]
  from Cons.prems step(1) have "int (length es) \<le> time_left (session (update_timer e w))"
    by simp
  from Cons.IH [OF this] step show ?case
    by simp
qed

lemma ticks_append: "ticks (es @ es') w = ticks es' (ticks es w)"
  by (induction es arbitrary: w) simp_all

text \<open>
  Claim C3, amended. A call of \<open>update_timer\<close> with time left counts down by exactly one
  and does not end the test; the time left never goes below zero. From 60, after exactly
  60 calls the time left is 0 and the test has not ended: the typing entry is as it was,
  no dialog has been shown and no score has been saved. The 61st call leaves the time at
  0 and ends the test.
\<close>

theorem update_timer_countdown:
  "(0 < time_left (session w) \<longrightarrow>
      time_left (session (update_timer e w)) = time_left (session w) - 1 \<and>
      typed_text_entry_state (update_timer e w) = typed_text_entry_state w \<and>
      messagebox_shown (update_timer e w) = messagebox_shown w)
   \<and> (0 \<le> time_left (session w) \<longrightarrow> 0 \<le> time_left (session (update_timer e w)))
   \<and> (time_left (session w) = 60 \<and> length es = 60 \<longrightarrow>
        time_left (session (ticks es w)) = 0 \<and>
        typed_text_entry_state (ticks es w) = typed_text_entry_state w \<and>
        messagebox_shown (ticks es w) = messagebox_shown w \<and>
        score_csv (ticks es w) = score_csv w \<and>
        time_left (session (ticks (es @ [e]) w)) = 0 \<and>
        typed_text_entry_state (ticks (es @ [e]) w) = DISABLED \<and>
        messagebox_shown (ticks (es @ [e]) w) = messagebox_shown w + 1)"
proof -
  have a: "time_left (session (update_timer e w)) = time_left (session w) - 1 \<and>
           typed_text_entry_state (update_timer e w) = typed_text_entry_state w \<and>
           messagebox_shown (update_timer e w) = messagebox_shown w"
    if "0 < time_left (session w)"
    using update_timer_counting [OF that, of e] by simp
  have b: "0 \<le> time_left (session (update_timer e w))" if "0 \<le> time_left (session w)"
  proof (cases "0 < time_left (session w)")
    case True
    from update_timer_counting(1) [OF True, of e] True show ?thesis
      by simp
  next
    case False
    from update_timer_ending(1) [OF False, of e] that show ?thesis
      by simp
  qed
  have c: "time_left (session (ticks es w)) = 0 \<and>
        typed_text_entry_state (ticks es w) = typed_text_entry_state w \<and>
        messagebox_shown (ticks es w) = messagebox_shown w \<and>
        score_csv (ticks es w) = score_csv w \<and>
        time_left (session (ticks (es @ [e]) w)) = 0 \<and>
        typed_text_entry_state (ticks (es @ [e]) w) = DISABLED \<and>
        messagebox_shown (ticks (es @ [e]) w) = messagebox_shown w + 1"
    if "time_left (session w) = 60" and "length es = 60"
  proof -
    from that have "int (length es) \<le> time_left (session w)"
      by simp
    from ticks_counting [OF this] that
    have sixty: "time_left (session (ticks es w)) = 0"
      "typed_text_entry_state (ticks es w) = typed_text_entry_state w"
      "messagebox_shown (ticks es w) = messagebox_shown w"
      "score_csv (ticks es w) = score_csv w"
      by simp_all
    from sixty(1) have stop: "\<not> 0 < time_left (session (ticks es w))"
      by simp
    have last: "ticks (es @ [e]) w = update_timer e (ticks es w)"
      by (simp add: ticks_append)
    from update_timer_ending(1-3) [OF stop, of e] sixty last show ?thesis
      by simp
  qed
  from a b c show ?thesis
    by blast
qed

theorem update_timer_countdown_witness:
  "time_left (session
     \<lparr>window.idiom = None, window.words_list = [py ''cat'', py ''dog''],
      after_id = False, words_indexes = [(0, 3), (4, 7)],
      session = TypingSession 100 [py ''cat'', py ''dog''],
      window.timer_started = True, typed_text_entry = [],
      typed_text_entry_state = NORMAL, recent_score_entry = [],
      corrected_cpm_entry = [], wpm_entry = [], time_entry = py ''60'',
      timer_pending = False, score_csv = None, messagebox_shown = 0\<rparr>) = 60
   \<and> length (replicate 60 \<lparr>http_get = \<lambda>url. Returns [], randbits = \<lambda>i. 0, time_time = 100,
                             date_now = py ''2024-05-01 10:01:00''\<rparr>) = 60
   \<and> messagebox_shown
        (ticks (replicate 60 \<lparr>http_get = \<lambda>url. Returns [], randbits = \<lambda>i. 0, time_time = 100,
                               date_now = py ''2024-05-01 10:01:00''\<rparr>
                @ [\<lparr>http_get = \<lambda>url. Returns [], randbits = \<lambda>i. 0, time_time = 100,
                     date_now = py ''2024-05-01 10:01:00''\<rparr>])
           \<lparr>window.idiom = None, window.words_list = [py ''cat'', py ''dog''],
            after_id = False, words_indexes = [(0, 3), (4, 7)],
            session = TypingSession 100 [py ''cat'', py ''dog''],
            window.timer_started = True, typed_text_entry = [],
            typed_text_entry_state = NORMAL, recent_score_entry = [],
            corrected_cpm_entry = [], wpm_entry = [], time_entry = py ''60'',
            timer_pending = False, score_csv = None, messagebox_shown = 0\<rparr>) = 1"
proof -
  let ?E = "\<lparr>http_get = \<lambda>url. Returns [], randbits = \<lambda>i. 0, time_time = 100,
             date_now = py ''2024-05-01 10:01:00''\<rparr>"
  let ?W = "\<lparr>window.idiom = None, window.words_list = [py ''cat'', py ''dog''],
      after_id = False, words_indexes = [(0, 3), (4, 7)],
      session = TypingSession 100 [py ''cat'', py ''dog''],
      window.timer_started = True, typed_text_entry = [],
      typed_text_entry_state = NORMAL, recent_score_entry = [],
      corrected_cpm_entry = [], wpm_entry = [], time_entry = py ''60'',
      timer_pending = False, score_csv = None, messagebox_shown = 0\<rparr>"
  have t: "time_left (session ?W) = 60"
    by (simp add: TypingSession_def start_def)
  have n: "length (replicate 60 ?E) = 60"
    by simp
  have m: "messagebox_shown ?W = 0"
    by simp
  from update_timer_countdown [of ?W ?E "replicate 60 ?E"] t n
  have "messagebox_shown (ticks (replicate 60 ?E @ [?E]) ?W) = messagebox_shown ?W + 1"
    by blast
  with m have "messagebox_shown (ticks (replicate 60 ?E @ [?E]) ?W) = 1"
    by simp
  with t n show ?thesis
    by blast
qed

text \<open>
  Claim C3 as stated fails at its last part: in a window just created, after exactly 60
  calls of \<open>update_timer\<close> the time left is 0 but the end of the test has not been
  triggered; the typing entry is enabled, no dialog was shown, no score was saved.
\<close>

theorem sixty_ticks_not_ended_counterexample:
  "Window \<lparr>http_get = \<lambda>url. Returns [py ''cat'', py ''dog''], randbits = \<lambda>i. 0,
           time_time = 100, date_now = py ''2024-05-01 10:00:00''\<rparr> None
   = Inr \<lparr>window.idiom = None, window.words_list = [py ''cat'', py ''dog''],
          after_id = False, words_indexes = [(0, 3), (4, 7)],
          session = TypingSession 100 [py ''cat'', py ''dog''],
          window.timer_started = False, typed_text_entry = [],
          typed_text_entry_state = NORMAL, recent_score_entry = [],
          corrected_cpm_entry = [], wpm_entry = [], time_entry = py ''60'',
          timer_pending = False, score_csv = None, messagebox_shown = 0\<rparr>
   \<and> time_left (session (ticks
         (replicate 60 \<lparr>http_get = \<lambda>url. Returns [py ''cat'', py ''dog''], randbits = \<lambda>i. 0,
                         time_time = 100, date_now = py ''2024-05-01 10:00:00''\<rparr>)
         \<lparr>window.idiom = None, window.words_list = [py ''cat'', py ''dog''],
          after_id = False, words_indexes = [(0, 3), (4, 7)],
          session = TypingSession 100 [py ''cat'', py ''dog''],
          window.timer_started = False, typed_text_entry = [],
          typed_text_entry_state = NORMAL, recent_score_entry = [],
          corrected_cpm_entry = [], wpm_entry = [], time_entry = py ''60'',
          timer_pending = False, score_csv = None, messagebox_shown = 0\<rparr>)) = 0
   \<and> typed_text_entry_state (ticks
         (replicate 60 \<lparr>http_get = \<lambda>url. Returns [py ''cat'', py ''dog''], randbits = \<lambda>i. 0,
                         time_time = 100, date_now = py ''2024-05-01 10:00:00''\<rparr>)
         \<lparr>window.idiom = None, window.words_list = [py ''cat'', py ''dog''],
          after_id = False, words_indexes = [(0, 3), (4, 7)],
          session = TypingSession 100 [py ''cat'', py ''dog''],
          window.timer_started = False, typed_text_entry = [],
          typed_text_entry_state = NORMAL, recent_score_entry = [],
          corrected_cpm_entry = [], wpm_entry = [], time_entry = py ''60'',
          timer_pending = False, score_csv = None, messagebox_shown = 0\<rparr>) = NORMAL
   \<and> messagebox_shown (ticks
         (replicate 60 \<lparr>http_get = \<lambda>url. Returns [py ''cat'', py ''dog''], randbits = \<lambda>i. 0,
                         time_time = 100, date_now = py ''2024-05-01 10:00:00''\<rparr>)
         \<lparr>window.idiom = None, window.words_list = [py ''cat'', py ''dog''],
          after_id = False, words_indexes = [(0, 3), (4, 7)],
          session = TypingSession 100 [py ''cat'', py ''dog''],
          window.timer_started = False, typed_text_entry = [],
          typed_text_entry_state = NORMAL, recent_score_entry = [],
          corrected_cpm_entry = [], wpm_entry = [], time_entry = py ''60'',
          timer_pending = False, score_csv = None, messagebox_shown = 0\<rparr>) = 0
   \<and> score_csv (ticks
         (replicate 60 \<lparr>http_get = \<lambda>url. Returns [py ''cat'', py ''dog''], randbits = \<lambda>i. 0,
                         time_time = 100, date_now = py ''2024-05-01 10:00:00''\<rparr>)
         \<lparr>window.idiom = None, window.words_list = [py ''cat'', py ''dog''],
          after_id = False, words_indexes = [(0, 3), (4, 7)],
          session = TypingSession 100 [py ''cat'', py ''dog''],
          window.timer_started = False, typed_text_entry = [],
          typed_text_entry_state = NORMAL, recent_score_entry = [],
          corrected_cpm_entry = [], wpm_entry = [], time_entry = py ''60'',
          timer_pending = False, score_csv = None, messagebox_shown = 0\<rparr>) = None"
proof -
  let ?E = "\<lparr>http_get = \<lambda>url. Returns [py ''cat'', py ''dog''], randbits = \<lambda>i. 0,
             time_time = 100, date_now = py ''2024-05-01 10:00:00''\<rparr>"
  let ?W = "\<lparr>window.idiom = None, window.words_list = [py ''cat'', py ''dog''],
          after_id = False, words_indexes = [(0, 3), (4, 7)],
          session = TypingSession 100 [py ''cat'', py ''dog''],
          window.timer_started = False, typed_text_entry = [],
          typed_text_entry_state = NORMAL, recent_score_entry = [],
          corrected_cpm_entry = [], wpm_entry = [], time_entry = py ''60'',
          timer_pending = False, score_csv = None, messagebox_shown = 0\<rparr>"
  have created: "Window ?E None = Inr ?W"
    by (simp add: Window_def new_session_def WordsList_def get_words_def get_list_def sample_def
        and_then_def Let_def reset_interface_def get_last_score_def read_last_score_def
        py_def numeral_2_eq_2)
  have t: "time_left (session ?W) = 60"
    by (simp add: TypingSession_def start_def)
  then have "int (length (replicate 60 ?E)) \<le> time_left (session ?W)"
    by simp
  from ticks_counting [OF this] t
  have "time_left (session (ticks (replicate 60 ?E) ?W)) = 0"
    and "typed_text_entry_state (ticks (replicate 60 ?E) ?W) = NORMAL"
    and "messagebox_shown (ticks (replicate 60 ?E) ?W) = 0"
    and "score_csv (ticks (replicate 60 ?E) ?W) = None"
    by simp_all
  with created show ?thesis
    by (intro conjI)
qed

section \<open>Submissions and the index of the current word\<close>









lemma end_test_keeps:
  "session (end_test d w) = session w"
  "window.words_list (end_test d w) = window.words_list w"
  "words_indexes (end_test d w) = words_indexes w"
  "typed_text_entry_state (end_test d w) = DISABLED"
  "messagebox_shown (end_test d w) = messagebox_shown w + 1"
  by (simp_all add: end_test_def save_score_to_csv_def Let_def)






lemma window_inv_end_test: "window_inv w \<Longrightarrow> window_inv (end_test d w)"
  by (simp add: window_inv_def end_test_keeps)












section \<open>The metrics\<close>

lemma pow2_pos: "0 < pow2 e"
  by (simp add: pow2_def)

lemma pow2_powr: "pow2 e = 2 powr (of_int e)"
proof (cases "0 \<le> e")
  case True
  then show ?thesis
    by (simp add: pow2_def powr_realpow [symmetric])
next
  case False
  then have "(2::real) powr (of_int e) = 1 / 2 powr (of_int (- e))"
    by (simp add: powr_minus divide_inverse)
  also have "\<dots> = 1 / 2 ^ nat (- e)"
    using False by (simp add: powr_realpow [symmetric])
  finally show ?thesis
    using False by (simp add: pow2_def)
qed

lemma floor_log2:
  assumes "pow2 e \<le> \<bar>x\<bar>" and "\<bar>x\<bar> < pow2 (e + 1)"
  shows "\<lfloor>log 2 \<bar>x\<bar>\<rfloor> = e"
proof -
  from assms(1) pow2_pos [of e] have pos: "0 < \<bar>x\<bar>"
    by linarith
  have "of_int e \<le> log 2 \<bar>x\<bar>"
    using assms(1) pos by (simp add: le_log_iff pow2_powr)
  moreover have "log 2 \<bar>x\<bar> < of_int e + 1"
    using assms(2) pos by (simp add: log_less_iff pow2_powr)
  ultimately show ?thesis
    by (simp add: floor_unique)
qed

lemma round_double_eval:
  assumes "pow2 e \<le> \<bar>x\<bar>" and "\<bar>x\<bar> < pow2 (e + 1)" and "- 1022 \<le> e"
  shows "round_double x = of_int (round_half_even (x / pow2 (e - 52))) * pow2 (e - 52)"
proof -
  from assms(1) pow2_pos [of e] have "x \<noteq> 0"
    by auto
  with floor_log2 [OF assms(1,2)] assms(3) show ?thesis
    by (simp add: round_double_def Let_def max_def)
qed

lemma round_half_even_close: "\<bar>of_int (round_half_even y) - y\<bar> \<le> 1 / 2"
  unfolding round_half_even_def by (auto simp: abs_if) linarith+

lemma round_double_zero: "round_double 0 = 0"
  by (simp add: round_double_def)

lemma round_double_error:
  assumes "pow2 (- 1022) \<le> \<bar>x\<bar>"
  shows "\<bar>round_double x - x\<bar> \<le> \<bar>x\<bar> / 2 ^ 53"
proof -
  let ?e = "\<lfloor>log 2 \<bar>x\<bar>\<rfloor>"
  let ?u = "pow2 (?e - 52)"
  from assms pow2_pos [of "- 1022"] have pos: "0 < \<bar>x\<bar>"
    by linarith
  then have nz: "x \<noteq> 0"
    by auto
  have "of_int (- 1022) \<le> log 2 \<bar>x\<bar>"
    using assms pos by (simp add: le_log_iff pow2_powr [symmetric] del: of_int_minus)
  then have normal: "- 1022 \<le> ?e"
    by (simp add: le_floor_iff)
  have "(2::real) powr (of_int ?e) \<le> 2 powr (log 2 \<bar>x\<bar>)"
    by simp
  then have low: "pow2 ?e \<le> \<bar>x\<bar>"
    using pos by (simp add: pow2_powr)
  have u: "?u = pow2 ?e / 2 ^ 52"
    by (simp add: pow2_powr powr_diff powr_realpow [symmetric])
  have upos: "0 < ?u"
    by (rule pow2_pos)
  from normal have mx: "max ?e (- 1022) = ?e"
    by (rule max_absorb1)
  from nz have rd: "round_double x = of_int (round_half_even (x / ?u)) * ?u"
    by (simp only: round_double_def Let_def mx if_False)
  have "round_double x - x = (of_int (round_half_even (x / ?u)) - x / ?u) * ?u"
    using upos by (simp add: rd field_simps)
  then have "\<bar>round_double x - x\<bar> = \<bar>of_int (round_half_even (x / ?u)) - x / ?u\<bar> * ?u"
    using upos by (simp add: abs_mult)
  also have "\<dots> \<le> 1 / 2 * ?u"
    using round_half_even_close [of "x / ?u"] upos by (intro mult_right_mono) simp_all
  also have "\<dots> = pow2 ?e / 2 ^ 53"
    by (simp add: u)
  also have "\<dots> \<le> \<bar>x\<bar> / 2 ^ 53"
    using low by (simp add: divide_right_mono)
  finally show ?thesis .
qed

lemma round_double_42: "round_double 42 = 42"
  by (subst round_double_eval [of 5]) (simp_all add: pow2_def round_half_even_def)

lemma round_double_1: "round_double 1 = 1"
  by (subst round_double_eval [of 0]) (simp_all add: pow2_def round_half_even_def)

lemma round_double_seven_tenths:
  "round_double (7 / 10) = 3152519739159347 / 4503599627370496"
  by (subst round_double_eval [of "- 1"]) (simp_all add: pow2_def round_half_even_def)

lemma round_double_sixtieth:
  "round_double (1 / 60) = 4803839602528529 / 288230376151711744"
  by (subst round_double_eval [of "- 6"]) (simp_all add: pow2_def round_half_even_def)

lemma round_double_cpm:
  "round_double (4503599627370496 / 3152519739159347) = 6433713753386423 / 4503599627370496"
  by (subst round_double_eval [of 0]) (simp_all add: pow2_def round_half_even_def)

lemma round_double_wpm:
  "round_double (6433713753386423 / 22517998136852480) = 2573485501354569 / 9007199254740992"
  by (subst round_double_eval [of "- 2"]) (simp_all add: pow2_def round_half_even_def)

lemma update_metrics_one_char:
  "cpm_corrected (update_metrics 1700000042
      ((TypingSession 1700000000 [py ''a''])\<lparr>correct_chars := 1\<rparr>))
     = 6433713753386423 / 4503599627370496"
  "session.wpm (update_metrics 1700000042
      ((TypingSession 1700000000 [py ''a''])\<lparr>correct_chars := 1\<rparr>))
     = 2573485501354569 / 9007199254740992"
  by (simp_all add: update_metrics_def TypingSession_def start_def Let_def round_double_42
        round_double_1 round_double_seven_tenths round_double_sixtieth round_double_cpm
        round_double_wpm)

lemma update_metrics_fields:
  assumes "start_time s \<noteq> 0"
  shows "cpm_corrected (update_metrics now s)
           = round_double (round_double (real_of_int (correct_chars s))
               / max (round_double (round_double (now - start_time s) / 60))
                     (round_double (1 / 60)))"
    and "session.wpm (update_metrics now s) = round_double (cpm_corrected (update_metrics now s) / 5)"
  using assms by (simp_all add: update_metrics_def Let_def)

text \<open>
  Claim C5, amended. When the start time is set, a recomputation stores as corrected
  characters per minute the float quotient of \<open>correct_chars\<close> by the elapsed minutes
  \<open>max((now - start_time) / 60, 1 / 60)\<close>, every operation rounded to the nearest double; the
  divisor is never below the double \<open>1 / 60\<close>, which is positive, so the division is
  defined. Words per minute is the float quotient of that value by 5. The identity
  \<open>cpm = 5 * wpm\<close> holds in the initial state, where both are 0, and whenever the quotient by
  5 is itself a double; otherwise it holds up to the rounding of that one division: the
  two sides differ by at most \<open>|cpm| / 2^53\<close> (for a quotient in the normal range).
\<close>

theorem update_metrics_rounded:
  "(start_time s \<noteq> 0 \<longrightarrow>
      cpm_corrected (update_metrics now s)
        = round_double (round_double (real_of_int (correct_chars s))
            / max (round_double (round_double (now - start_time s) / 60))
                  (round_double (1 / 60))) \<and>
      session.wpm (update_metrics now s)
        = round_double (cpm_corrected (update_metrics now s) / 5) \<and>
      (round_double (cpm_corrected (update_metrics now s) / 5)
         = cpm_corrected (update_metrics now s) / 5 \<longrightarrow>
       cpm_corrected (update_metrics now s) = 5 * session.wpm (update_metrics now s)) \<and>
      (pow2 (- 1022) \<le> \<bar>cpm_corrected (update_metrics now s) / 5\<bar> \<longrightarrow>
       \<bar>cpm_corrected (update_metrics now s) - 5 * session.wpm (update_metrics now s)\<bar>
         \<le> \<bar>cpm_corrected (update_metrics now s)\<bar> / 2 ^ 53))
   \<and> round_double (1 / 60)
       \<le> max (round_double (round_double (now - start_time s) / 60)) (round_double (1 / 60))
   \<and> round_double (1 / 60) = 4803839602528529 / 288230376151711744
   \<and> 0 < round_double (1 / 60)
   \<and> (start_time s = 0 \<longrightarrow> update_metrics now s = s)
   \<and> cpm_corrected (TypingSession now ws) = 0 \<and> session.wpm (TypingSession now ws) = 0
   \<and> cpm_corrected (TypingSession now ws) = 5 * session.wpm (TypingSession now ws)"
proof -
  let ?cpm = "cpm_corrected (update_metrics now s)"
  let ?wpm = "session.wpm (update_metrics now s)"
  have a: "?cpm = round_double (round_double (real_of_int (correct_chars s))
            / max (round_double (round_double (now - start_time s) / 60))
                  (round_double (1 / 60))) \<and>
      ?wpm = round_double (?cpm / 5) \<and>
      (round_double (?cpm / 5) = ?cpm / 5 \<longrightarrow> ?cpm = 5 * ?wpm) \<and>
      (pow2 (- 1022) \<le> \<bar>?cpm / 5\<bar> \<longrightarrow> \<bar>?cpm - 5 * ?wpm\<bar> \<le> \<bar>?cpm\<bar> / 2 ^ 53)"
    if set: "start_time s \<noteq> 0"
  proof -
    note f = update_metrics_fields [OF set, of now]
    have exact: "?cpm = 5 * ?wpm" if "round_double (?cpm / 5) = ?cpm / 5"
      using that f(2) by simp
    have near: "\<bar>?cpm - 5 * ?wpm\<bar> \<le> \<bar>?cpm\<bar> / 2 ^ 53" if "pow2 (- 1022) \<le> \<bar>?cpm / 5\<bar>"
    proof -
      from round_double_error [OF that]
      have "\<bar>?wpm - ?cpm / 5\<bar> \<le> \<bar>?cpm / 5\<bar> / 2 ^ 53"
        by (simp only: f(2) [symmetric])
      then have "5 * \<bar>?wpm - ?cpm / 5\<bar> \<le> 5 * (\<bar>?cpm / 5\<bar> / 2 ^ 53)"
        by simp
      moreover have "5 * \<bar>?wpm - ?cpm / 5\<bar> = \<bar>?cpm - 5 * ?wpm\<bar>"
        by (simp add: abs_if)
      moreover have "5 * (\<bar>?cpm / 5\<bar> / 2 ^ 53) = \<bar>?cpm\<bar> / 2 ^ 53"
        by simp
      ultimately show ?thesis
        by simp
    qed
    from f exact near show ?thesis
      by blast
  qed
  have b: "round_double (1 / 60)
       \<le> max (round_double (round_double (now - start_time s) / 60)) (round_double (1 / 60))"
    by simp
  have c: "round_double (1 / 60) = 4803839602528529 / 288230376151711744"
    by (rule round_double_sixtieth)
  then have d: "0 < round_double (1 / 60)"
    by simp
  have e: "update_metrics now s = s" if "start_time s = 0"
    using that by (simp add: update_metrics_def)
  have f: "cpm_corrected (TypingSession now ws) = 0" "session.wpm (TypingSession now ws) = 0"
    by (simp_all add: TypingSession_def start_def)
  then have g: "cpm_corrected (TypingSession now ws) = 5 * session.wpm (TypingSession now ws)"
    by simp
  from a have A: "start_time s \<noteq> 0 \<longrightarrow>
      ?cpm = round_double (round_double (real_of_int (correct_chars s))
            / max (round_double (round_double (now - start_time s) / 60))
                  (round_double (1 / 60))) \<and>
      ?wpm = round_double (?cpm / 5) \<and>
      (round_double (?cpm / 5) = ?cpm / 5 \<longrightarrow> ?cpm = 5 * ?wpm) \<and>
      (pow2 (- 1022) \<le> \<bar>?cpm / 5\<bar> \<longrightarrow> \<bar>?cpm - 5 * ?wpm\<bar> \<le> \<bar>?cpm\<bar> / 2 ^ 53)"
    by (rule impI)
  from e have E: "start_time s = 0 \<longrightarrow> update_metrics now s = s"
    by (rule impI)
  show ?thesis
    by (intro conjI) (fact A b c d E f g)+
qed

theorem update_metrics_rounded_witness:
  "(let S1 = (TypingSession 1700000000 [py ''a''])\<lparr>correct_chars := 1\<rparr>;
        S0 = TypingSession 1700000000 [py ''a'']
    in start_time S1 \<noteq> 0
       \<and> pow2 (- 1022) \<le> \<bar>cpm_corrected (update_metrics 1700000042 S1) / 5\<bar>
       \<and> \<bar>cpm_corrected (update_metrics 1700000042 S1)
            - 5 * session.wpm (update_metrics 1700000042 S1)\<bar>
           \<le> \<bar>cpm_corrected (update_metrics 1700000042 S1)\<bar> / 2 ^ 53
       \<and> start_time S0 \<noteq> 0
       \<and> round_double (cpm_corrected (update_metrics 1700000042 S0) / 5)
           = cpm_corrected (update_metrics 1700000042 S0) / 5
       \<and> cpm_corrected (update_metrics 1700000042 S0)
           = 5 * session.wpm (update_metrics 1700000042 S0))"
proof -
  let ?S1 = "(TypingSession 1700000000 [py ''a''])\<lparr>correct_chars := 1\<rparr>"
  let ?S0 = "TypingSession 1700000000 [py ''a'']"
  let ?now = "1700000042 :: real"
  have set1: "start_time ?S1 \<noteq> 0" and set0: "start_time ?S0 \<noteq> 0"
    by (simp_all add: TypingSession_def start_def)
  have "pow2 (- 1022) \<le> pow2 (- 2)"
    unfolding pow2_powr by simp
  also have "pow2 (- 2) \<le> \<bar>cpm_corrected (update_metrics ?now ?S1) / 5\<bar>"
    by (simp add: update_metrics_one_char pow2_def)
  finally have normal: "pow2 (- 1022) \<le> \<bar>cpm_corrected (update_metrics ?now ?S1) / 5\<bar>" .
  from update_metrics_rounded [of ?S1 ?now] set1 normal
  have near: "\<bar>cpm_corrected (update_metrics ?now ?S1) - 5 * session.wpm (update_metrics ?now ?S1)\<bar>
                \<le> \<bar>cpm_corrected (update_metrics ?now ?S1)\<bar> / 2 ^ 53"
    by blast
  have zero: "cpm_corrected (update_metrics ?now ?S0) = 0"
    by (simp add: update_metrics_def TypingSession_def start_def Let_def round_double_zero)
  then have exact: "round_double (cpm_corrected (update_metrics ?now ?S0) / 5)
                      = cpm_corrected (update_metrics ?now ?S0) / 5"
    by (simp add: round_double_zero)
  from update_metrics_rounded [of ?S0 ?now] set0 exact
  have same: "cpm_corrected (update_metrics ?now ?S0) = 5 * session.wpm (update_metrics ?now ?S0)"
    by blast
  show ?thesis
    unfolding Let_def by (intro conjI) (fact set1 normal near set0 exact same)+
qed

text \<open>
  Claim C5 as stated fails at the identity: with one correct character and a recomputation
  42 seconds after the start, the stored values are the doubles 1.4285714285714286 and
  0.2857142857142857, and five times the second is not the first.
\<close>

theorem update_metrics_identity_counterexample:
  "cpm_corrected (update_metrics 1700000042
      ((TypingSession 1700000000 [py ''a''])\<lparr>correct_chars := 1\<rparr>))
     = 6433713753386423 / 4503599627370496
   \<and> session.wpm (update_metrics 1700000042
        ((TypingSession 1700000000 [py ''a''])\<lparr>correct_chars := 1\<rparr>))
     = 2573485501354569 / 9007199254740992
   \<and> cpm_corrected (update_metrics 1700000042
        ((TypingSession 1700000000 [py ''a''])\<lparr>correct_chars := 1\<rparr>))
     \<noteq> 5 * session.wpm (update_metrics 1700000042
              ((TypingSession 1700000000 [py ''a''])\<lparr>correct_chars := 1\<rparr>))"
  by (simp add: update_metrics_one_char)

end
